theory Spec2Isabelle
  imports Complex_Main "HOL-Library.Word"
begin

section \<open>Errors and the normalization factory\<close>

text \<open>
  The exceptions the constructors of \<^verbatim>\<open>transformer_shard.py\<close> can raise: a failed
  \<^verbatim>\<open>assert\<close>, Python's \<^verbatim>\<open>ZeroDivisionError\<close> of \<^verbatim>\<open>%\<close>, \<^verbatim>\<open>//\<close> and \<^verbatim>\<open>/\<close>, and
  the \<^verbatim>\<open>Exception("Not implemented")\<close> of \<^verbatim>\<open>getnorm\<close>.
\<close>

datatype error = AssertionError | ZeroDivisionError | NotImplemented

text \<open>
  The two normalization classes with their constructor arguments:
  \<^verbatim>\<open>ReplicatedLayerNorm(offset=True)\<close> and \<^verbatim>\<open>RMSNorm(offset, elementwise)\<close>.
\<close>

datatype norm_module = ReplicatedLayerNorm bool | RMSNorm bool bool

definition getnorm :: "string \<Rightarrow> error + norm_module" where
  "getnorm type =
     (if type = ''layernorm'' then Inr (ReplicatedLayerNorm True)
      else if type = ''layernorm-nobias'' then Inr (ReplicatedLayerNorm False)
      else if type = ''rmsnorm'' then Inr (RMSNorm False True)
      else if type = ''scalenorm'' then Inr (RMSNorm False False)
      else if type = ''rmsnorm-bias'' then Inr (RMSNorm True True)
      else if type = ''scalenorm-bias'' then Inr (RMSNorm True False)
      else Inl NotImplemented)"

section \<open>Configuration and construction\<close>

text \<open>
  The entries of the \<^verbatim>\<open>config\<close> dictionary the constructors read. Python integers are
  unbounded, so they are \<^typ>\<open>int\<close>; \<open>norm_name\<close> is \<^verbatim>\<open>config["norm"]\<close>.
\<close>

record config =
  n_vocab :: int
  d_model :: int
  cores_per_replica :: int
  n_heads :: int
  layers :: int
  norm_name :: string

text \<open>Python's \<^verbatim>\<open>a % b\<close> and \<^verbatim>\<open>a // b\<close> on integers: floor semantics, and a zero divisor raises.\<close>

definition py_mod :: "int \<Rightarrow> int \<Rightarrow> error + int" where
  "py_mod a b = (if b = 0 then Inl ZeroDivisionError else Inr (a mod b))"

definition py_floordiv :: "int \<Rightarrow> int \<Rightarrow> error + int" where
  "py_floordiv a b = (if b = 0 then Inl ZeroDivisionError else Inr (a div b))"

text \<open>\<^verbatim>\<open>assert a % b == 0\<close>.\<close>

definition assert_divides :: "int \<Rightarrow> int \<Rightarrow> error + unit" where
  "assert_divides a b =
     (case py_mod a b of
        Inl e \<Rightarrow> Inl e
      | Inr r \<Rightarrow> if r = 0 then Inr () else Inl AssertionError)"

record embedding_shard =
  emb_in_dim :: int
  emb_out_dim :: int
  emb_in_dim_per_shard :: int

definition EmbeddingShard_init :: "config \<Rightarrow> error + embedding_shard" where
  "EmbeddingShard_init cfg =
     (let in_dim = n_vocab cfg; out_dim = d_model cfg; shards = cores_per_replica cfg in
      case assert_divides in_dim shards of
        Inl e \<Rightarrow> Inl e
      | Inr _ \<Rightarrow>
          Inr \<lparr>emb_in_dim = in_dim, emb_out_dim = out_dim,
               emb_in_dim_per_shard = in_dim div shards\<rparr>)"

record transformer_layer_shard =
  tl_name :: nat
  tl_init_scale :: real
  tl_dim :: int
  tl_dim_per_head :: int
  tl_heads_per_shard :: int
  tl_dim_per_shard :: int
  tl_norm :: norm_module

text \<open>
  \<^verbatim>\<open>TransformerLayerShard.__init__\<close>: the norm is built first, then the two assertions run,
  then the three floor divisions. After the assertions neither divisor is zero.
\<close>

definition TransformerLayerShard_init ::
  "config \<Rightarrow> nat \<Rightarrow> real \<Rightarrow> error + transformer_layer_shard" where
  "TransformerLayerShard_init cfg name init_scale =
     (let heads = n_heads cfg; dim = d_model cfg; shards = cores_per_replica cfg in
      case getnorm (norm_name cfg) of
        Inl e \<Rightarrow> Inl e
      | Inr nrm \<Rightarrow>
          (case assert_divides dim heads of
             Inl e \<Rightarrow> Inl e
           | Inr _ \<Rightarrow>
               (case assert_divides heads shards of
                  Inl e \<Rightarrow> Inl e
                | Inr _ \<Rightarrow>
                    Inr \<lparr>tl_name = name, tl_init_scale = init_scale, tl_dim = dim,
                         tl_dim_per_head = dim div heads,
                         tl_heads_per_shard = heads div shards,
                         tl_dim_per_shard = dim div shards,
                         tl_norm = nrm\<rparr>)))"

record projection_shard =
  pr_dim :: int
  pr_dim_per_shard :: int
  pr_norm :: norm_module

definition ProjectionShard_init :: "config \<Rightarrow> error + projection_shard" where
  "ProjectionShard_init cfg =
     (let out_dim = n_vocab cfg; shards = cores_per_replica cfg in
      case getnorm (norm_name cfg) of
        Inl e \<Rightarrow> Inl e
      | Inr nrm \<Rightarrow>
          (case assert_divides out_dim shards of
             Inl e \<Rightarrow> Inl e
           | Inr _ \<Rightarrow>
               Inr \<lparr>pr_dim = out_dim, pr_dim_per_shard = out_dim div shards, pr_norm = nrm\<rparr>))"

text \<open>
  The loop \<^verbatim>\<open>for i in range(layer_count): self.transformer_layers.append(...)\<close>: layer
  \<open>i\<close> is built before layer \<open>i + 1\<close>, and the first exception ends the loop. The second
  argument is the next index, the third the number of layers still to build.
\<close>

primrec build_layers ::
  "config \<Rightarrow> real \<Rightarrow> nat \<Rightarrow> nat \<Rightarrow> error + transformer_layer_shard list" where
  "build_layers cfg init_scale i 0 = Inr []"
| "build_layers cfg init_scale i (Suc k) =
     (case TransformerLayerShard_init cfg i init_scale of
        Inl e \<Rightarrow> Inl e
      | Inr l \<Rightarrow>
          (case build_layers cfg init_scale (Suc i) k of
             Inl e \<Rightarrow> Inl e
           | Inr ls \<Rightarrow> Inr (l # ls)))"

record causal_transformer_shard =
  cts_transformer_layers :: "transformer_layer_shard list"
  cts_heads :: int
  cts_heads_per_shard :: int
  cts_embed :: embedding_shard
  cts_proj :: projection_shard

text \<open>
  \<^verbatim>\<open>CausalTransformerShard.__init__\<close>, in the order of the source: \<^verbatim>\<open>heads // shards\<close>,
  the embedding, \<^verbatim>\<open>init_scale = 2. / layer_count\<close> (a float division, which raises on
  zero), the layers (\<^verbatim>\<open>range\<close> of a negative count is empty), the projection.
\<close>

definition CausalTransformerShard_init :: "config \<Rightarrow> error + causal_transformer_shard" where
  "CausalTransformerShard_init cfg =
     (let heads = n_heads cfg; shards = cores_per_replica cfg; layer_count = layers cfg in
      case py_floordiv heads shards of
        Inl e \<Rightarrow> Inl e
      | Inr hps \<Rightarrow>
          (case EmbeddingShard_init cfg of
             Inl e \<Rightarrow> Inl e
           | Inr emb \<Rightarrow>
               if layer_count = 0 then Inl ZeroDivisionError
               else
                 (case build_layers cfg (2 / real_of_int layer_count) 0 (nat layer_count) of
                    Inl e \<Rightarrow> Inl e
                  | Inr ls \<Rightarrow>
                      (case ProjectionShard_init cfg of
                         Inl e \<Rightarrow> Inl e
                       | Inr prj \<Rightarrow>
                           Inr \<lparr>cts_transformer_layers = ls, cts_heads = heads,
                                cts_heads_per_shard = hps, cts_embed = emb,
                                cts_proj = prj\<rparr>))))"

section \<open>Collective primitives\<close>

text \<open>
  The program runs once per model-parallel shard, in lockstep. A value on the
  \<^verbatim>\<open>"shard"\<close> axis is the list of the values the shards hold, shard 0 first; a rank-1
  array is a \<^typ>\<open>real list\<close>, a rank-2 array the list of its rows. The collectives of
  the engine (\<^verbatim>\<open>jax.lax.psum\<close>, \<^verbatim>\<open>pmean\<close>, \<^verbatim>\<open>pmax\<close>) reduce elementwise across the
  axis and hand the result to every shard. Arithmetic is over the reals: rounding is
  not modelled.
\<close>

definition tsum :: "real list list \<Rightarrow> real list" where
  "tsum xs = (case xs of [] \<Rightarrow> [] | x # _ \<Rightarrow> map (\<lambda>k. \<Sum>v\<leftarrow>xs. v ! k) [0..<length x])"

definition tmax :: "real list list \<Rightarrow> real list" where
  "tmax xs =
     (case xs of [] \<Rightarrow> []
      | x # rest \<Rightarrow> map (\<lambda>k. fold max (map (\<lambda>v. v ! k) rest) (x ! k)) [0..<length x])"

definition psum :: "real list list \<Rightarrow> real list list" where
  "psum xs = replicate (length xs) (tsum xs)"

definition pmean :: "real list list \<Rightarrow> real list list" where
  "pmean xs = replicate (length xs) (map (\<lambda>v. v / real (length xs)) (tsum xs))"

definition pmax :: "real list list \<Rightarrow> real list list" where
  "pmax xs = replicate (length xs) (tmax xs)"

text \<open>\<^verbatim>\<open>psum\<close> of a rank-2 array: row \<open>t\<close> of the result is the sum of the shards' rows \<open>t\<close>.\<close>

definition psum2 :: "real list list list \<Rightarrow> real list list list" where
  "psum2 xs =
     (case xs of [] \<Rightarrow> []
      | x # _ \<Rightarrow>
          replicate (length xs) (map (\<lambda>t. tsum (map (\<lambda>m. m ! t) xs)) [0..<length x]))"

text \<open>
  The three \<^verbatim>\<open>jax.custom_vjp\<close> functions. Each is a primal function, a forward rule
  returning the output and the residual (\<^verbatim>\<open>None\<close>, here \<open>()\<close>), and a backward rule from
  the residual and the cotangent \<open>g\<close> to the cotangent of the argument.
\<close>

definition f_psum :: "'a \<Rightarrow> 'a" where
  "f_psum x = x"

definition f_psum_fwd :: "'a \<Rightarrow> 'a \<times> unit" where
  "f_psum_fwd x = (f_psum x, ())"

definition f_psum_bwd :: "unit \<Rightarrow> real list list \<Rightarrow> real list list" where
  "f_psum_bwd u g = psum g"

definition f_pmean :: "'a \<Rightarrow> 'a" where
  "f_pmean x = x"

definition f_pmean_fwd :: "'a \<Rightarrow> 'a \<times> unit" where
  "f_pmean_fwd x = (f_psum x, ())"

definition f_pmean_bwd :: "unit \<Rightarrow> real list list \<Rightarrow> real list list" where
  "f_pmean_bwd u g = pmean g"

definition g_psum :: "real list list \<Rightarrow> real list list" where
  "g_psum x = psum x"

definition g_psum_fwd :: "real list list \<Rightarrow> real list list \<times> unit" where
  "g_psum_fwd x = (g_psum x, ())"

definition g_psum_bwd :: "unit \<Rightarrow> real list list \<Rightarrow> real list list" where
  "g_psum_bwd u g = g"

text \<open>\<^verbatim>\<open>g_psum\<close> applied to a rank-2 array (the embedding's output).\<close>

definition g_psum2 :: "real list list list \<Rightarrow> real list list list" where
  "g_psum2 x = psum2 x"

text \<open>\<^verbatim>\<open>jax.lax.stop_gradient\<close> is the identity on values.\<close>

definition stop_gradient :: "'a \<Rightarrow> 'a" where
  "stop_gradient x = x"

text \<open>
  The pairing of a value on the shard axis with a cotangent of the same shape: the sum,
  over the shards and the elements, of the products. The backward rule of a linear
  collective \<open>c\<close> hands the cotangent \<open>c' g\<close> to its argument when
  \<open>shard_dot (c x) g = shard_dot x (c' g)\<close> for every \<open>x\<close>.
\<close>

definition shard_dot :: "real list list \<Rightarrow> real list list \<Rightarrow> real" where
  "shard_dot x g = (\<Sum>(v, w)\<leftarrow>zip x g. \<Sum>(a, b)\<leftarrow>zip v w. a * b)"

section \<open>Normalization: RMSNorm\<close>

text \<open>
  A parameter of shape \<^verbatim>\<open>(d,)\<close> is a list of \<open>d\<close> reals, one of shape \<^verbatim>\<open>()\<close> a list of one
  real; multiplying or adding it to a row of width \<open>d\<close> broadcasts the single value.
\<close>

definition broadcast :: "real list \<Rightarrow> nat \<Rightarrow> real list" where
  "broadcast p d = (if length p = 1 then replicate d (hd p) else p)"

text \<open>\<^verbatim>\<open>x / (jnp.linalg.norm(x, axis=-1, keepdims=True) + 1e-5)\<close> on one row.\<close>

definition normed_row :: "real list \<Rightarrow> real list" where
  "normed_row x = map (\<lambda>v. v / (sqrt (\<Sum>u\<leftarrow>x. u * u) + 1 / 100000)) x"

text \<open>
  \<^verbatim>\<open>RMSNorm.__call__\<close> on all shards: \<open>scales\<close> and \<open>offsets\<close> are the \<^verbatim>\<open>scale\<close> and
  \<^verbatim>\<open>offset\<close> parameters the shards hold, \<open>x\<close> the inputs of the shards (rank 2). The
  offset parameter is read only when \<^verbatim>\<open>self.offset\<close> is set.
\<close>

definition RMSNorm_call ::
  "bool \<Rightarrow> real list list \<Rightarrow> real list list \<Rightarrow> real list list list \<Rightarrow> real list list list" where
  "RMSNorm_call offset scales offsets x =
     (let normed = map (map normed_row) x;
          scale = pmean scales;
          normed = map2 (\<lambda>n s. map (\<lambda>row. map2 (*) row (broadcast s (length row))) n)
                     normed scale
      in if offset then
           (let offset = pmean offsets
            in map2 (\<lambda>n off. map (\<lambda>row. map2 (+) row (broadcast off (length row))) n)
                 normed offset)
         else normed)"

text \<open>
  The normalization as the specification words it: scale and offset go through
  \<^verbatim>\<open>f_pmean\<close> (identity on the forward pass) instead of \<^verbatim>\<open>jax.lax.pmean\<close>.
\<close>

definition RMSNorm_call_spec ::
  "bool \<Rightarrow> real list list \<Rightarrow> real list list \<Rightarrow> real list list list \<Rightarrow> real list list list" where
  "RMSNorm_call_spec offset scales offsets x =
     (let normed = map (map normed_row) x;
          scale = f_pmean scales;
          normed = map2 (\<lambda>n s. map (\<lambda>row. map2 (*) row (broadcast s (length row))) n)
                     normed scale
      in if offset then
           (let offset = f_pmean offsets
            in map2 (\<lambda>n off. map (\<lambda>row. map2 (+) row (broadcast off (length row))) n)
                 normed offset)
         else normed)"

section \<open>Relative position buckets\<close>

text \<open>
  The offsets are \<^verbatim>\<open>int32\<close> (\<^verbatim>\<open>np.arange(..., dtype=jnp.int32)\<close>), so the negation wraps
  around at \<open>- 2^31\<close>. The cast \<^verbatim>\<open>.astype(np.int32)\<close> of a float truncates towards zero.
  \<^verbatim>\<open>np.finfo(np.float32).eps\<close> is \<open>2^-23\<close>. The logarithm is the real one.
\<close>

definition int32_wrap :: "int \<Rightarrow> int" where
  "int32_wrap x = (x + 2 ^ 31) mod 2 ^ 32 - 2 ^ 31"

definition float_to_int :: "real \<Rightarrow> int" where
  "float_to_int x = (if 0 \<le> x then \<lfloor>x\<rfloor> else \<lceil>x\<rceil>)"

definition float32_eps :: real where
  "float32_eps = 1 / 2 ^ 23"

definition relative_position_bucket :: "int \<Rightarrow> int \<Rightarrow> int \<Rightarrow> int" where
  "relative_position_bucket relative_position num_buckets max_distance =
     (let ret = 0;
          n = int32_wrap (- relative_position);
          n = max n 0;
          max_exact = num_buckets div 2;
          is_small = (n < max_exact);
          val_if_large = max_exact +
            float_to_int (ln (real_of_int n / real_of_int max_exact + float32_eps) /
                          ln (real_of_int max_distance / real_of_int max_exact) *
                          real_of_int (num_buckets - max_exact));
          val_if_large = min val_if_large (num_buckets - 1)
      in ret + (if is_small then n else val_if_large))"

text \<open>The call \<^verbatim>\<open>self._relative_position_bucket(relative_position)\<close> uses the defaults.\<close>

definition bucket :: "int \<Rightarrow> int" where
  "bucket d = relative_position_bucket d 32 128"

section \<open>The sharded embedding\<close>

text \<open>
  \<^verbatim>\<open>hk.Linear(output_size)\<close> of the Haiku library keeps a weight \<open>w\<close> of shape
  \<^verbatim>\<open>(input_size, output_size)\<close> and, as \<^verbatim>\<open>with_bias\<close> defaults to \<^verbatim>\<open>True\<close>, a bias \<open>b\<close> of
  shape \<^verbatim>\<open>(output_size,)\<close>; it returns \<^verbatim>\<open>jnp.dot(x, w) + b\<close>.
\<close>

definition Linear :: "real list list \<Rightarrow> real list \<Rightarrow> real list \<Rightarrow> real list" where
  "Linear w b x =
     map (\<lambda>j. (\<Sum>i\<leftarrow>[0..<length x]. x ! i * (w ! i ! j)) + b ! j) [0..<length b]"

text \<open>
  The local part of \<^verbatim>\<open>EmbeddingShard.__call__\<close> on shard \<open>s\<close>
  (\<^verbatim>\<open>jax.lax.axis_index('shard')\<close>): the one-hot rows against the shard's vocabulary
  indices, and their projection.
\<close>

definition shard_one_hot :: "nat \<Rightarrow> nat \<Rightarrow> int list \<Rightarrow> real list list" where
  "shard_one_hot in_dim_per_shard s x =
     (let shard_start_index = int s * int in_dim_per_shard;
          shard_index = map (\<lambda>j. int j + shard_start_index) [0..<in_dim_per_shard]
      in map (\<lambda>tok. map (\<lambda>i. if i = tok then 1 else 0) shard_index) x)"

definition EmbeddingShard_proj_out ::
  "nat \<Rightarrow> real list list \<times> real list \<Rightarrow> nat \<Rightarrow> int list \<Rightarrow> real list list" where
  "EmbeddingShard_proj_out in_dim_per_shard p s x =
     map (Linear (fst p) (snd p)) (shard_one_hot in_dim_per_shard s x)"

text \<open>
  \<^verbatim>\<open>EmbeddingShard.__call__\<close> on all shards: \<open>ps\<close> holds the weight and bias of the
  projection of each shard, \<open>x\<close> the token ids (the same on every shard).
\<close>

definition EmbeddingShard_call ::
  "nat \<Rightarrow> (real list list \<times> real list) list \<Rightarrow> int list \<Rightarrow> real list list list" where
  "EmbeddingShard_call in_dim_per_shard ps x =
     g_psum2 (map (\<lambda>s. EmbeddingShard_proj_out in_dim_per_shard (ps ! s) s x) [0..<length ps])"

section \<open>The sharded loss\<close>

text \<open>\<^verbatim>\<open>jax.nn.one_hot(k, n)\<close>: the row \<^verbatim>\<open>arange(n) == k\<close>, all zero when \<open>k\<close> is out of range.\<close>

definition one_hot :: "int \<Rightarrow> nat \<Rightarrow> real list" where
  "one_hot k n = map (\<lambda>j. if int j = k then 1 else 0) [0..<n]"

text \<open>\<^verbatim>\<open>row.max()\<close> of a row that is not empty.\<close>

definition row_max :: "real list \<Rightarrow> real" where
  "row_max row = fold max (tl row) (hd row)"

text \<open>
  \<^verbatim>\<open>ProjectionShard.loss\<close> on all shards. \<open>norm_fn\<close> and \<open>proj_fn\<close> are the normalization and
  the \<^verbatim>\<open>hk.Linear(dim_per_shard)\<close> of the module, as functions from the shards' inputs
  to the shards' outputs; \<open>x\<close> are the shards' activations (rank 2: tokens by features),
  \<open>targets\<close> the target token ids. The result holds, for each shard, the loss of each
  token. The arrays of shape \<^verbatim>\<open>(T, 1)\<close> are kept as lists of \<open>T\<close> reals.
\<close>

definition ProjectionShard_loss ::
  "(real list list list \<Rightarrow> real list list list) \<Rightarrow>
   (real list list list \<Rightarrow> real list list list) \<Rightarrow>
   nat \<Rightarrow> real list list list \<Rightarrow> int list \<Rightarrow> real list list" where
  "ProjectionShard_loss norm_fn proj_fn dim_per_shard x targets =
     (let x = f_psum x;
          x = norm_fn x;
          logits = proj_fn x;
          shard_start_index = map (\<lambda>s. int s * int dim_per_shard) [0..<length logits];
          global_max = pmax (map (\<lambda>l. stop_gradient (map row_max l)) logits);
          logits = map2 (\<lambda>l m. map2 (\<lambda>row mt. map (\<lambda>v. v - mt) row) l m)
                     logits (stop_gradient global_max);
          gt_onehot = map (\<lambda>st. map (\<lambda>t. one_hot (t - st) dim_per_shard) targets)
                        shard_start_index;
          predicted_logits = map2 (\<lambda>oh l. map2 (\<lambda>orow lrow. sum_list (map2 (*) orow lrow)) oh l)
                               gt_onehot logits;
          predicted_logits = g_psum predicted_logits;
          exp_logits = map (map (map exp)) logits;
          sum_exp_logits = map (map sum_list) exp_logits;
          sum_exp_logits = g_psum sum_exp_logits
      in map2 (\<lambda>se pl. map2 (\<lambda>a b. ln a - b) se pl) sum_exp_logits predicted_logits)"

text \<open>
  The unsharded reference on the full logits of one token:
  \<^verbatim>\<open>log(sum(exp(allLogits))) - allLogits[target]\<close>.
\<close>

definition reference_loss :: "real list \<Rightarrow> nat \<Rightarrow> real" where
  "reference_loss all_logits target = ln (\<Sum>v\<leftarrow>all_logits. exp v) - all_logits ! target"

text \<open>The full logits of token \<open>t\<close>: the shards' slices, concatenated in shard order.\<close>

definition all_logits :: "real list list list \<Rightarrow> nat \<Rightarrow> real list" where
  "all_logits logits t = concat (map (\<lambda>l. l ! t) logits)"

section \<open>Model assembly\<close>

text \<open>
  \<^verbatim>\<open>x + hk.remat(l)(x, attn_bias)\<close> on every shard: the elementwise sum of two rank-2
  arrays. \<^verbatim>\<open>hk.remat\<close> changes when values are recomputed, not the values.
\<close>

definition residual_add ::
  "real list list list \<Rightarrow> real list list list \<Rightarrow> real list list list" where
  "residual_add x y = map2 (map2 (map2 (+))) x y"

text \<open>
  The loop \<^verbatim>\<open>for l in self.transformer_layers: x = x + hk.remat(l)(x, attn_bias)\<close>. A
  layer (\<^verbatim>\<open>TransformerLayerShard.__call__\<close> with its parameters) is a function from the
  shards' activations and the attention bias to the shards' outputs.
\<close>

fun layer_loop ::
  "(real list list list \<Rightarrow> 'b \<Rightarrow> real list list list) list \<Rightarrow> 'b \<Rightarrow>
   real list list list \<Rightarrow> real list list list" where
  "layer_loop [] attn_bias x = x"
| "layer_loop (l # ls) attn_bias x = layer_loop ls attn_bias (residual_add x (l x attn_bias))"

text \<open>
  \<^verbatim>\<open>CausalTransformerShard.eval\<close>: \<open>rpe\<close> is the relative position module, \<open>in_dim_per_shard\<close>
  and \<open>ps\<close> belong to the embedding, \<open>norm_fn\<close>, \<open>proj_fn\<close> and \<open>dim_per_shard\<close> to the
  projection. The argument \<^verbatim>\<open>z_loss\<close> is not used by the loss.
\<close>

definition CausalTransformerShard_eval ::
  "(nat \<Rightarrow> nat \<Rightarrow> int \<Rightarrow> nat \<Rightarrow> 'b) \<Rightarrow> nat \<Rightarrow> (real list list \<times> real list) list \<Rightarrow>
   (real list list list \<Rightarrow> 'b \<Rightarrow> real list list list) list \<Rightarrow>
   (real list list list \<Rightarrow> real list list list) \<Rightarrow>
   (real list list list \<Rightarrow> real list list list) \<Rightarrow> nat \<Rightarrow> int \<Rightarrow>
   int list \<Rightarrow> int list \<Rightarrow> real list list" where
  "CausalTransformerShard_eval rpe in_dim_per_shard ps transformer_layers norm_fn proj_fn
     dim_per_shard heads_per_shard context target =
     (let input_len = length context;
          attn_bias = rpe input_len input_len heads_per_shard 32;
          x = EmbeddingShard_call in_dim_per_shard ps context;
          x = layer_loop transformer_layers attn_bias x
      in ProjectionShard_loss norm_fn proj_fn dim_per_shard x target)"

section \<open>Training state, precision and the optimizer\<close>

text \<open>
  An array carries its dtype; its values are reals, so a cast changes the dtype and the
  rounding it causes is not modelled. A parameter or gradient tree is the list of its
  leaves.
\<close>

datatype dtype = float32 | bfloat16 | int32

datatype array = Array (dtype_of: dtype) (data: "real list")

type_synonym tree = "array list"

definition astype :: "dtype \<Rightarrow> array \<Rightarrow> array" where
  "astype d x = Array d (data x)"

definition to_f32 :: "tree \<Rightarrow> tree" where
  "to_f32 t = map (\<lambda>x. if dtype_of x = bfloat16 then astype float32 x else x) t"

definition to_bf16 :: "tree \<Rightarrow> tree" where
  "to_bf16 t = map (\<lambda>x. if dtype_of x = float32 then astype bfloat16 x else x) t"

definition zeros_like :: "array \<Rightarrow> array" where
  "zeros_like x = Array (dtype_of x) (replicate (length (data x)) 0)"

text \<open>The dtype of \<^verbatim>\<open>a + b\<close>: the wider float wins, and a float wins over an integer.\<close>

definition result_type :: "dtype \<Rightarrow> dtype \<Rightarrow> dtype" where
  "result_type a b =
     (if a = float32 \<or> b = float32 then float32
      else if a = bfloat16 \<or> b = bfloat16 then bfloat16 else int32)"

definition array_add :: "array \<Rightarrow> array \<Rightarrow> array" where
  "array_add a b = Array (result_type (dtype_of a) (dtype_of b)) (map2 (+) (data a) (data b))"

definition tree_multimap :: "(array \<Rightarrow> array \<Rightarrow> array) \<Rightarrow> tree \<Rightarrow> tree \<Rightarrow> tree" where
  "tree_multimap f a b = map2 f a b"

text \<open>\<^verbatim>\<open>optax.apply_updates\<close>: \<^verbatim>\<open>(p + u).astype(p.dtype)\<close> on every leaf.\<close>

definition apply_updates :: "tree \<Rightarrow> tree \<Rightarrow> tree" where
  "apply_updates ps us = map2 (\<lambda>p u. astype (dtype_of p) (array_add p u)) ps us"

text \<open>
  \<^verbatim>\<open>jax.lax.pmean(grad, "batch")\<close>: every data-parallel replica receives, leaf by leaf
  and element by element, the mean of the replicas' trees; the dtype is kept.
\<close>

definition tree_mean :: "tree list \<Rightarrow> tree" where
  "tree_mean ts =
     (case ts of [] \<Rightarrow> []
      | t0 # _ \<Rightarrow>
          map (\<lambda>i. Array (dtype_of (t0 ! i))
                     (map (\<lambda>v. v / real (length ts)) (tsum (map (\<lambda>t. data (t ! i)) ts))))
            [0..<length t0])"

definition pmean_batch :: "tree list \<Rightarrow> tree list" where
  "pmean_batch ts = replicate (length ts) (tree_mean ts)"

text \<open>
  The state dictionary. The step counter is an \<^verbatim>\<open>int32\<close> array, so \<^verbatim>\<open>state["step"] + 1\<close>
  wraps around: it is a 32-bit word, read as a signed value with \<open>sint\<close>.
\<close>

record train_state =
  params :: tree
  step :: "32 word"
  opt_state :: tree

text \<open>The optimizer of the configuration: \<^verbatim>\<open>optimizer.init\<close> and \<^verbatim>\<open>optimizer.update\<close>.\<close>

record optimizer =
  opt_init :: "tree \<Rightarrow> tree"
  opt_update :: "tree \<Rightarrow> tree \<Rightarrow> tree \<Rightarrow> tree \<times> tree"

text \<open>\<^verbatim>\<open>jax.lax.scan\<close>: the carry is threaded through the inputs in order.\<close>

fun scan :: "('c \<Rightarrow> 'x \<Rightarrow> 'c \<times> 'y) \<Rightarrow> 'c \<Rightarrow> 'x list \<Rightarrow> 'c \<times> 'y list" where
  "scan f init [] = (init, [])"
| "scan f init (x # xs) =
     (case f init x of (carry, y) \<Rightarrow>
        (case scan f carry xs of (final, ys) \<Rightarrow> (final, y # ys)))"

text \<open>
  The inner functions of \<^verbatim>\<open>CausalTransformer.__init__\<close>. \<open>vg\<close> is
  \<^verbatim>\<open>jax.value_and_grad(train_loss_fn)\<close> and \<open>eval_loss_fn\<close> the transformed loss: both
  belong to the autodiff engine and are functions of the parameters and the batch.
\<close>

definition microbatch ::
  "(tree \<Rightarrow> int list \<Rightarrow> int list \<Rightarrow> array \<times> tree) \<Rightarrow> train_state \<Rightarrow>
   tree \<Rightarrow> int list \<times> int list \<Rightarrow> tree \<times> array" where
  "microbatch vg state old_grad batch =
     (case batch of (ctx, tgt) \<Rightarrow>
        (case vg (to_bf16 (params state)) ctx tgt of (val, grad) \<Rightarrow>
           (let new_grad = tree_multimap (\<lambda>a b. array_add a b) old_grad grad
            in (new_grad, val))))"

text \<open>
  \<^verbatim>\<open>train\<close> on all data-parallel replicas: \<open>batches\<close> holds, for each replica, its
  contexts and targets (one per micro-batch). The result holds, for each replica, the
  losses and the new state.
\<close>

definition train ::
  "optimizer \<Rightarrow> (tree \<Rightarrow> int list \<Rightarrow> int list \<Rightarrow> array \<times> tree) \<Rightarrow> train_state \<Rightarrow>
   (int list list \<times> int list list) list \<Rightarrow> (tree \<times> train_state) list" where
  "train optimizer vg state batches =
     (let scanned = map (\<lambda>(ctx, tgt).
                      scan (microbatch vg state)
                        (map (\<lambda>x. astype bfloat16 (zeros_like x)) (params state))
                        (zip ctx tgt)) batches;
          grad = pmean_batch (map fst scanned)
      in map2 (\<lambda>grad (_, losses).
           (case opt_update optimizer grad (opt_state state) (params state) of
              (updates, new_opt_state) \<Rightarrow>
                (to_f32 losses,
                 \<lparr>params = apply_updates (params state) (to_f32 updates),
                  step = step state + 1,
                  opt_state = new_opt_state\<rparr>)))
           grad scanned)"

text \<open>
  The training step as the specification words it: the averaged gradient is cast to
  full precision, the optimizer is applied to it, and its updates are added to the
  parameters.
\<close>

definition train_spec ::
  "optimizer \<Rightarrow> (tree \<Rightarrow> int list \<Rightarrow> int list \<Rightarrow> array \<times> tree) \<Rightarrow> train_state \<Rightarrow>
   (int list list \<times> int list list) list \<Rightarrow> (tree \<times> train_state) list" where
  "train_spec optimizer vg state batches =
     (let scanned = map (\<lambda>(ctx, tgt).
                      scan (microbatch vg state)
                        (map (\<lambda>x. astype bfloat16 (zeros_like x)) (params state))
                        (zip ctx tgt)) batches;
          grad = map to_f32 (pmean_batch (map fst scanned))
      in map2 (\<lambda>grad (_, losses).
           (case opt_update optimizer grad (opt_state state) (params state) of
              (updates, new_opt_state) \<Rightarrow>
                (to_f32 losses,
                 \<lparr>params = apply_updates (params state) updates,
                  step = step state + 1,
                  opt_state = new_opt_state\<rparr>)))
           grad scanned)"

definition eval ::
  "(tree \<Rightarrow> int list \<Rightarrow> int list \<Rightarrow> array) \<Rightarrow> train_state \<Rightarrow> int list \<Rightarrow> int list \<Rightarrow> array" where
  "eval eval_loss_fn state ctx tgt = eval_loss_fn (to_bf16 (params state)) ctx tgt"

section \<open>The CausalTransformer object\<close>

text \<open>
  The object holds the configuration and the state; a method takes the object and
  returns its result and the object afterwards. \<^verbatim>\<open>np.array(loss).mean()\<close> is the mean
  of all values of the arrays.
\<close>

record causal_transformer =
  ct_config :: config
  ct_state :: train_state

definition np_mean :: "array list \<Rightarrow> real" where
  "np_mean arrs = (let vs = concat (map data arrs) in sum_list vs / real (length vs))"

text \<open>
  \<^verbatim>\<open>CausalTransformer.eval\<close>: \<^verbatim>\<open>eval_xmap\<close> runs \<^verbatim>\<open>eval\<close> on every replica with its row of
  \<^verbatim>\<open>sample["obs"]\<close> and \<^verbatim>\<open>sample["target"]\<close>. Nothing is assigned to \<^verbatim>\<open>self\<close>.
\<close>

definition CausalTransformer_eval ::
  "(tree \<Rightarrow> int list \<Rightarrow> int list \<Rightarrow> array) \<Rightarrow> causal_transformer \<Rightarrow>
   int list list \<times> int list list \<Rightarrow> real \<times> causal_transformer" where
  "CausalTransformer_eval eval_loss_fn self sample =
     (case sample of (obs, target) \<Rightarrow>
        (let loss = map (\<lambda>(ctx, tgt). eval eval_loss_fn (ct_state self) ctx tgt) (zip obs target)
         in (np_mean loss, self)))"

text \<open>
  \<^verbatim>\<open>CausalTransformer.train\<close>: the sample, micro-batches first, is transposed so that
  the replicas come first; \<^verbatim>\<open>self.state\<close> is assigned the new state, which is the same
  on every replica (a mesh axis is never empty; with no replica nothing would run).
\<close>

definition CausalTransformer_train ::
  "optimizer \<Rightarrow> (tree \<Rightarrow> int list \<Rightarrow> int list \<Rightarrow> array \<times> tree) \<Rightarrow> causal_transformer \<Rightarrow>
   int list list list \<times> int list list list \<Rightarrow> real \<times> causal_transformer" where
  "CausalTransformer_train optimizer vg self sample =
     (case sample of (sample_obs, sample_target) \<Rightarrow>
        (let obs = transpose sample_obs;
             target = transpose sample_target;
             out = train optimizer vg (ct_state self) (zip obs target)
         in (case out of
               [] \<Rightarrow> (np_mean [], self)
             | (_, new_state) # _ \<Rightarrow>
                 (np_mean (concat (map fst out)), self\<lparr>ct_state := new_state\<rparr>))))"

section \<open>Properties of the normalization factory\<close>

lemma getnorm_supported:
  "type \<in> {''layernorm'', ''layernorm-nobias'', ''rmsnorm'', ''scalenorm'',
            ''rmsnorm-bias'', ''scalenorm-bias''} \<Longrightarrow> \<exists>m. getnorm type = Inr m"
  by (auto simp: getnorm_def)

text \<open>
  Claim C7, as the code has it: the factory accepts exactly the six names \<^verbatim>\<open>layernorm\<close>,
  \<^verbatim>\<open>layernorm-nobias\<close>, \<^verbatim>\<open>rmsnorm\<close>, \<^verbatim>\<open>scalenorm\<close>, \<^verbatim>\<open>rmsnorm-bias\<close> and
  \<^verbatim>\<open>scalenorm-bias\<close>; every other name raises the "Not implemented" exception. The second
  name is spelled without a hyphen between "no" and "bias".
\<close>

theorem getnorm_accepts_exactly:
  "(getnorm type = Inl NotImplemented) =
     (type \<notin> {''layernorm'', ''layernorm-nobias'', ''rmsnorm'', ''scalenorm'',
                ''rmsnorm-bias'', ''scalenorm-bias''})
   \<and> ((\<exists>m. getnorm type = Inr m) =
     (type \<in> {''layernorm'', ''layernorm-nobias'', ''rmsnorm'', ''scalenorm'',
                ''rmsnorm-bias'', ''scalenorm-bias''}))"
  by (auto simp: getnorm_def)

text \<open>
  The name the specification lists, \<^verbatim>\<open>layernorm-no-bias\<close>, is not one of the accepted
  names: \<^verbatim>\<open>getnorm\<close> raises on it.
\<close>

theorem getnorm_no_bias_counterexample:
  "getnorm ''layernorm-no-bias'' = Inl NotImplemented"
  by (simp add: getnorm_def)

section \<open>Properties of the construction\<close>

lemma TransformerLayerShard_init_fails:
  assumes "py_mod (d_model cfg) (n_heads cfg) \<noteq> Inr 0
           \<or> py_mod (n_heads cfg) (cores_per_replica cfg) \<noteq> Inr 0"
  shows "\<exists>e. TransformerLayerShard_init cfg i s = Inl e"
  using assms
  by (auto simp: TransformerLayerShard_init_def assert_divides_def py_mod_def Let_def
           split: sum.splits if_splits)

lemma build_layers_fails:
  assumes "\<exists>e. TransformerLayerShard_init cfg i s = Inl e"
  shows "\<exists>e. build_layers cfg s i (Suc k) = Inl e"
  using assms by auto

lemma EmbeddingShard_init_fails:
  assumes "py_mod (n_vocab cfg) (cores_per_replica cfg) \<noteq> Inr 0"
  shows "\<exists>e. EmbeddingShard_init cfg = Inl e"
  using assms
  by (auto simp: EmbeddingShard_init_def assert_divides_def py_mod_def Let_def
           split: sum.splits if_splits)

lemma divides_transitive:
  assumes "py_mod d h = Inr 0" and "py_mod h c = Inr 0"
  shows "py_mod d c = Inr 0"
proof -
  from assms have "h \<noteq> 0" "c \<noteq> 0" "h dvd d" "c dvd h"
    by (auto simp: py_mod_def split: if_splits)
  then have "c dvd d" by (meson dvd_trans)
  with \<open>c \<noteq> 0\<close> show ?thesis by (simp add: py_mod_def)
qed

text \<open>
  Claim C4, for configurations whose layer count is not negative: when one of the
  four invariants \<^verbatim>\<open>modelDim % numHeads == 0\<close>, \<^verbatim>\<open>numHeads % numShards == 0\<close>,
  \<^verbatim>\<open>vocabSize % numShards == 0\<close>, \<^verbatim>\<open>modelDim % numShards == 0\<close> does not hold (the
  remainder is not zero, or the divisor is zero and \<^verbatim>\<open>%\<close> raises), the constructor
  raises, so that no model exists to compute with. The first three are asserted; the
  fourth is not asserted itself and follows from the first two. With no layer at all
  the constructor raises on \<^verbatim>\<open>2. / layer_count\<close> whatever the configuration.
\<close>

theorem construction_rejects_violations:
  assumes "0 \<le> layers cfg"
    and "py_mod (d_model cfg) (n_heads cfg) \<noteq> Inr 0
         \<or> py_mod (n_heads cfg) (cores_per_replica cfg) \<noteq> Inr 0
         \<or> py_mod (n_vocab cfg) (cores_per_replica cfg) \<noteq> Inr 0
         \<or> py_mod (d_model cfg) (cores_per_replica cfg) \<noteq> Inr 0"
  shows "\<exists>e. CausalTransformerShard_init cfg = Inl e"
proof (cases "py_mod (n_vocab cfg) (cores_per_replica cfg) = Inr 0")
  case False
  then obtain e where "EmbeddingShard_init cfg = Inl e"
    using EmbeddingShard_init_fails by blast
  then show ?thesis
    by (simp add: CausalTransformerShard_init_def Let_def split: sum.splits)
next
  case True
  show ?thesis
  proof (cases "layers cfg = 0")
    case True
    then show ?thesis
      by (simp add: CausalTransformerShard_init_def Let_def split: sum.splits)
  next
    case False
    from True assms(2) have "py_mod (d_model cfg) (n_heads cfg) \<noteq> Inr 0
        \<or> py_mod (n_heads cfg) (cores_per_replica cfg) \<noteq> Inr 0"
      using divides_transitive by blast
    then have l: "\<exists>e. TransformerLayerShard_init cfg 0 (2 / real_of_int (layers cfg)) = Inl e"
      by (rule TransformerLayerShard_init_fails)
    from False assms(1) obtain k where k: "nat (layers cfg) = Suc k"
      by (cases "nat (layers cfg)") auto
    from l obtain e where
      "build_layers cfg (2 / real_of_int (layers cfg)) 0 (nat (layers cfg)) = Inl e"
      unfolding k using build_layers_fails by blast
    then show ?thesis
      by (simp add: CausalTransformerShard_init_def Let_def split: sum.splits)
  qed
qed

lemma TransformerLayerShard_init_error_kind:
  assumes "TransformerLayerShard_init cfg i s = Inl e"
    and "cores_per_replica cfg \<noteq> 0" and "n_heads cfg \<noteq> 0"
    and "getnorm (norm_name cfg) = Inr m"
  shows "e = AssertionError"
  using assms
  by (auto simp: TransformerLayerShard_init_def assert_divides_def py_mod_def Let_def
           split: sum.splits if_splits)

lemma build_layers_error_kind:
  assumes "build_layers cfg s i k = Inl e"
    and "cores_per_replica cfg \<noteq> 0" and "n_heads cfg \<noteq> 0"
    and "getnorm (norm_name cfg) = Inr m"
  shows "e = AssertionError"
  using assms
proof (induction k arbitrary: i)
  case 0
  then show ?case by simp
next
  case (Suc k)
  show ?case
  proof (cases "TransformerLayerShard_init cfg i s")
    case (Inl e')
    with Suc.prems show ?thesis
      using TransformerLayerShard_init_error_kind by fastforce
  next
    case (Inr l)
    with Suc.prems have "build_layers cfg s (Suc i) k = Inl e"
      by (simp split: sum.splits)
    then show ?thesis using Suc.IH Suc.prems by blast
  qed
qed

text \<open>
  The exception is the \<^verbatim>\<open>AssertionError\<close> unless a divisor is zero, the layer count is
  zero or the norm name is not supported.
\<close>

lemma construction_error_kind:
  assumes "CausalTransformerShard_init cfg = Inl e"
    and "cores_per_replica cfg \<noteq> 0" and "n_heads cfg \<noteq> 0" and "layers cfg \<noteq> 0"
    and "getnorm (norm_name cfg) = Inr m"
  shows "e = AssertionError"
proof -
  have emb: "EmbeddingShard_init cfg = Inl e' \<Longrightarrow> e' = AssertionError" for e'
    using assms(2)
    by (auto simp: EmbeddingShard_init_def assert_divides_def py_mod_def Let_def
             split: sum.splits if_splits)
  have prj: "ProjectionShard_init cfg = Inl e' \<Longrightarrow> e' = AssertionError" for e'
    using assms(2,5)
    by (auto simp: ProjectionShard_init_def assert_divides_def py_mod_def Let_def
             split: sum.splits if_splits)
  have lay: "build_layers cfg s 0 k = Inl e' \<Longrightarrow> e' = AssertionError" for e' s k
    using build_layers_error_kind assms(2,3,5) by blast
  from assms(1,2,4) show ?thesis
    by (auto simp: CausalTransformerShard_init_def py_floordiv_def Let_def
             split: sum.splits if_splits dest: emb prj lay)
qed

text \<open>A configuration that satisfies the invariants is constructed.\<close>

lemma construction_accepts_valid:
  assumes "1 \<le> layers cfg"
    and "py_mod (d_model cfg) (n_heads cfg) = Inr 0"
    and "py_mod (n_heads cfg) (cores_per_replica cfg) = Inr 0"
    and "py_mod (n_vocab cfg) (cores_per_replica cfg) = Inr 0"
    and "getnorm (norm_name cfg) = Inr m"
  shows "\<exists>t. CausalTransformerShard_init cfg = Inr t"
proof -
  from assms have nz: "cores_per_replica cfg \<noteq> 0" "n_heads cfg \<noteq> 0" "layers cfg \<noteq> 0"
    by (auto simp: py_mod_def split: if_splits)
  have l: "\<exists>t. TransformerLayerShard_init cfg i s = Inr t" for i s
    using assms
    by (auto simp: TransformerLayerShard_init_def assert_divides_def py_mod_def Let_def
             split: sum.splits if_splits)
  have b: "\<exists>ls. build_layers cfg s i k = Inr ls" for s i k
  proof (induction k arbitrary: i)
    case 0
    then show ?case by simp
  next
    case (Suc k)
    obtain t where "TransformerLayerShard_init cfg i s = Inr t" using l by blast
    moreover obtain ls where "build_layers cfg s (Suc i) k = Inr ls" using Suc by blast
    ultimately show ?case by simp
  qed
  obtain ls where
    "build_layers cfg (2 / real_of_int (layers cfg)) 0 (nat (layers cfg)) = Inr ls"
    using b by blast
  with assms nz show ?thesis
    by (auto simp: CausalTransformerShard_init_def py_floordiv_def EmbeddingShard_init_def
          ProjectionShard_init_def assert_divides_def py_mod_def Let_def split: sum.splits)
qed

theorem construction_rejects_violations_witness:
  "0 \<le> layers \<lparr>n_vocab = 8, d_model = 4, cores_per_replica = 2, n_heads = 3, layers = 1,
                 norm_name = ''layernorm''\<rparr>
   \<and> py_mod 4 3 \<noteq> Inr 0
   \<and> CausalTransformerShard_init
        \<lparr>n_vocab = 8, d_model = 4, cores_per_replica = 2, n_heads = 3, layers = 1,
         norm_name = ''layernorm''\<rparr> = Inl AssertionError"
  using construction_rejects_violations
    [of "\<lparr>n_vocab = 8, d_model = 4, cores_per_replica = 2, n_heads = 3, layers = 1,
          norm_name = ''layernorm''\<rparr>"]
  by (simp add: py_mod_def CausalTransformerShard_init_def EmbeddingShard_init_def
      TransformerLayerShard_init_def assert_divides_def py_floordiv_def getnorm_def)

text \<open>
  With a negative layer count no layer is built and nothing asserts the invariants on
  the heads: a configuration with \<^verbatim>\<open>numHeads % numShards == 1\<close> is constructed.
\<close>

theorem construction_negative_layers_counterexample:
  "py_mod 3 2 \<noteq> Inr 0
   \<and> CausalTransformerShard_init
        \<lparr>n_vocab = 8, d_model = 6, cores_per_replica = 2, n_heads = 3, layers = - 1,
         norm_name = ''layernorm''\<rparr>
      = Inr \<lparr>cts_transformer_layers = [], cts_heads = 3, cts_heads_per_shard = 1,
             cts_embed = \<lparr>emb_in_dim = 8, emb_out_dim = 6, emb_in_dim_per_shard = 4\<rparr>,
             cts_proj = \<lparr>pr_dim = 8, pr_dim_per_shard = 4,
                         pr_norm = ReplicatedLayerNorm True\<rparr>\<rparr>"
  by (simp add: py_mod_def CausalTransformerShard_init_def EmbeddingShard_init_def
      ProjectionShard_init_def assert_divides_def py_floordiv_def getnorm_def)

section \<open>Properties of the collectives\<close>

lemma length_tsum: "xs \<noteq> [] \<Longrightarrow> length (tsum xs) = length (hd xs)"
  by (cases xs) (simp_all add: tsum_def)

lemma tsum_nth:
  "xs \<noteq> [] \<Longrightarrow> k < length (hd xs) \<Longrightarrow> tsum xs ! k = (\<Sum>v\<leftarrow>xs. v ! k)"
  by (cases xs) (simp_all add: tsum_def)

lemma psum_nth: "s < length xs \<Longrightarrow> psum xs ! s = tsum xs"
  by (simp add: psum_def)

lemma length_psum: "length (psum xs) = length xs"
  by (simp add: psum_def)

lemma psum2_unfold:
  "xs \<noteq> [] \<Longrightarrow>
   psum2 xs = replicate (length xs) (map (\<lambda>t. tsum (map (\<lambda>m. m ! t) xs)) [0..<length (hd xs)])"
  by (cases xs) (simp_all add: psum2_def)

lemma psum2_nth:
  assumes "s < length xs" and "t < length (hd xs)"
  shows "psum2 xs ! s ! t = tsum (map (\<lambda>m. m ! t) xs)"
proof -
  from assms(1) have "xs \<noteq> []" by auto
  then show ?thesis using assms by (simp add: psum2_unfold)
qed

lemma sum_list_indicator:
  "(\<Sum>i\<leftarrow>[0..<n]. (if i = a then f i else 0)) = (if a < n then f a else (0::real))"
proof -
  have "(\<Sum>i\<leftarrow>[0..<n]. (if i = a then f i else 0)) = (\<Sum>i\<in>{0..<n}. (if i = a then f i else 0))"
    by (simp add: sum_list_distinct_conv_sum_set)
  also have "\<dots> = (if a < n then f a else 0)"
    by (simp add: sum.delta)
  finally show ?thesis .
qed

text \<open>
  Claim C2: on the forward pass \<^verbatim>\<open>g_psum\<close> gives every shard \<open>s\<close> the sum over all
  shards of \<open>x\<close>, element by element (the forward rule returns the same output), and
  on the backward pass it hands the cotangent \<open>g\<close> back unchanged.
\<close>

theorem g_psum_forward_sum_backward_identity:
  assumes "\<forall>v\<in>set x. length v = d" and "s < length x" and "k < d"
  shows "g_psum x ! s ! k = (\<Sum>v\<leftarrow>x. v ! k)
         \<and> fst (g_psum_fwd x) = g_psum x
         \<and> g_psum_bwd (snd (g_psum_fwd x)) g = g"
proof -
  from assms(2) have ne: "x \<noteq> []" by auto
  then have "hd x \<in> set x" by simp
  with assms(1,3) have "k < length (hd x)" by simp
  with ne assms(2) show ?thesis
    by (simp add: g_psum_def g_psum_fwd_def g_psum_bwd_def psum_nth tsum_nth)
qed

theorem g_psum_forward_sum_backward_identity_witness:
  "g_psum [[1, 2], [3, 4]] ! 1 ! 0 = 4
   \<and> fst (g_psum_fwd [[1, 2], [3, 4]]) = g_psum [[1, 2], [3, 4]]
   \<and> g_psum_bwd (snd (g_psum_fwd [[1, 2], [3, 4]])) [[5, 6], [7, 8]] = [[5, 6], [7, 8]]"
  using g_psum_forward_sum_backward_identity
    [of "[[1, 2], [3, 4]]" 2 1 0 "[[5, 6], [7, 8]]"]
  by simp


section \<open>Properties of the sharded embedding\<close>

lemma shard_one_hot_nth:
  "t < length x \<Longrightarrow>
   shard_one_hot d s x ! t = map (\<lambda>j. if int j + int s * int d = x ! t then 1 else 0) [0..<d]"
  by (simp add: shard_one_hot_def Let_def comp_def)

lemma shard_one_hot_outside:
  assumes "t < length x" and "x ! t < int s * int d \<or> int (Suc s) * int d \<le> x ! t"
  shows "shard_one_hot d s x ! t = replicate d 0"
proof -
  have "int j + int s * int d \<noteq> x ! t" if "j < d" for j
    using assms(2) that by (auto simp: algebra_simps)
  then have "map (\<lambda>j. if int j + int s * int d = x ! t then 1 else 0) [0..<d]
             = map (\<lambda>j. 0::real) [0..<d]"
    by (intro map_cong) auto
  then show ?thesis using assms(1) by (simp add: shard_one_hot_nth map_replicate_const)
qed

lemma Linear_zero_row: "Linear w b (replicate d 0) = b"
proof -
  have "(\<Sum>i\<leftarrow>[0..<d]. replicate d (0::real) ! i * w ! i ! j) = 0" for j
    by (simp add: interv_sum_list_conv_sum_set_nat)
  then show ?thesis by (simp add: Linear_def map_nth)
qed


lemma Linear_one_hot_row:
  assumes "j < length b"
  shows "Linear w b (map (\<lambda>i. if int i + st = tok then 1 else 0) [0..<d]) ! j
         = (if st \<le> tok \<and> tok < st + int d then w ! nat (tok - st) ! j else 0) + b ! j"
proof -
  let ?oh = "map (\<lambda>i. if int i + st = tok then 1 else (0::real)) [0..<d]"
  have "(\<Sum>i\<leftarrow>[0..<length ?oh]. ?oh ! i * w ! i ! j)
        = (\<Sum>i\<in>{0..<d}. (if i = nat (tok - st) \<and> st \<le> tok then w ! i ! j else 0))"
    unfolding interv_sum_list_conv_sum_set_nat
    by (intro sum.cong) auto
  also have "\<dots> = (if st \<le> tok \<and> tok < st + int d then w ! nat (tok - st) ! j else 0)"
    by (cases "st \<le> tok") (auto simp: sum.delta)
  finally show ?thesis using assms by (simp add: Linear_def)
qed

lemma length_Linear: "length (Linear w b x) = length b"
  by (simp add: Linear_def)

lemma EmbeddingShard_proj_out_nth:
  assumes "t < length x" and "j < length (snd p)"
  shows "EmbeddingShard_proj_out d p s x ! t ! j
         = (if int s * int d \<le> x ! t \<and> x ! t < int s * int d + int d
            then fst p ! nat (x ! t - int s * int d) ! j else 0) + snd p ! j"
  using assms
  by (simp add: EmbeddingShard_proj_out_def shard_one_hot_def Let_def comp_def
      Linear_one_hot_row)

lemma owner_shard:
  assumes "0 \<le> tok" and "0 < d"
  shows "(int s * int d \<le> tok \<and> tok < int s * int d + int d) = (s = nat tok div d)"
proof -
  obtain m where m: "tok = int m" using assms(1) by (metis nat_0_le)
  have "(s * d \<le> m \<and> m < s * d + d) = (s = m div d)"
  proof
    assume a: "s * d \<le> m \<and> m < s * d + d"
    then have "s \<le> m div d" using assms(2) by (simp add: less_eq_div_iff_mult_less_eq)
    moreover from a have "m < Suc s * d" by simp
    then have "m div d < Suc s" using assms(2) by (simp add: div_less_iff_less_mult)
    ultimately show "s = m div d" by simp
  next
    assume "s = m div d"
    then show "s * d \<le> m \<and> m < s * d + d"
      using assms(2) by (metis add.commute div_times_less_eq_dividend dividend_less_div_times)
  qed
  then show ?thesis unfolding m by (simp flip: of_nat_mult of_nat_add)
qed


lemma EmbeddingShard_call_nth:
  assumes shape: "\<forall>p\<in>set ps. length (snd p) = out_dim"
    and s: "s < length ps" and t: "t < length x" and j: "j < out_dim"
  shows "EmbeddingShard_call d ps x ! s ! t ! j
         = (\<Sum>s'\<leftarrow>[0..<length ps]. EmbeddingShard_proj_out d (ps ! s') s' x ! t ! j)"
proof -
  let ?rows = "map (\<lambda>s'. EmbeddingShard_proj_out d (ps ! s') s' x) [0..<length ps]"
  from s have n: "0 < length ps" by (cases ps) auto
  then have hd_rows: "hd ?rows = EmbeddingShard_proj_out d (ps ! 0) 0 x"
    by (simp add: hd_map upt_conv_Cons)
  have len_po: "length (EmbeddingShard_proj_out d p s' x) = length x" for p s'
    by (simp add: EmbeddingShard_proj_out_def shard_one_hot_def Let_def)
  have "ps ! 0 \<in> set ps" using n by simp
  with shape have b0: "length (snd (ps ! 0)) = out_dim" by blast
  have len_row: "length (EmbeddingShard_proj_out d (ps ! 0) 0 x ! t) = out_dim"
    using t b0 by (simp add: EmbeddingShard_proj_out_def shard_one_hot_def Let_def length_Linear)
  have "EmbeddingShard_call d ps x ! s ! t = tsum (map (\<lambda>m. m ! t) ?rows)"
    unfolding EmbeddingShard_call_def g_psum2_def
  proof (rule psum2_nth)
    show "s < length ?rows" using s by simp
    show "t < length (hd ?rows)" using t by (simp only: hd_rows len_po)
  qed
  moreover have "tsum (map (\<lambda>m. m ! t) ?rows) ! j = (\<Sum>v\<leftarrow>map (\<lambda>m. m ! t) ?rows. v ! j)"
  proof (rule tsum_nth)
    show "map (\<lambda>m. m ! t) ?rows \<noteq> []" using n by simp
    have "hd (map (\<lambda>m. m ! t) ?rows) = EmbeddingShard_proj_out d (ps ! 0) 0 x ! t"
      using n by (simp add: hd_map upt_conv_Cons)
    then show "j < length (hd (map (\<lambda>m. m ! t) ?rows))" using len_row j by simp
  qed
  ultimately show ?thesis by (simp add: comp_def)
qed

text \<open>
  Claim C8, as the code has it. For a token \<open>x ! t\<close> of the vocabulary: on a shard \<open>s\<close>
  that does not own the token the one-hot row is all zero, and the shard's partial output
  for the token is the bias of its projection (zero only when that bias is zero); the
  forward sum gives every shard, for the token, the row of the owning shard's weight
  plus the sum of the biases of all shards.
\<close>

theorem embedding_partial_outputs_and_sum:
  assumes shape: "\<forall>p\<in>set ps. length (snd p) = out_dim"
    and s: "s < length ps" and t: "t < length x" and j: "j < out_dim"
    and tok0: "0 \<le> x ! t" and tokn: "x ! t < int (length ps) * int d"
  shows "((x ! t < int s * int d \<or> int (Suc s) * int d \<le> x ! t) \<longrightarrow>
            shard_one_hot d s x ! t = replicate d 0
            \<and> EmbeddingShard_proj_out d (ps ! s) s x ! t = snd (ps ! s))
         \<and> EmbeddingShard_call d ps x ! s ! t ! j
             = fst (ps ! (nat (x ! t) div d)) ! (nat (x ! t) mod d) ! j + (\<Sum>p\<leftarrow>ps. snd p ! j)"
proof
  show "(x ! t < int s * int d \<or> int (Suc s) * int d \<le> x ! t) \<longrightarrow>
          shard_one_hot d s x ! t = replicate d 0
          \<and> EmbeddingShard_proj_out d (ps ! s) s x ! t = snd (ps ! s)"
  proof
    assume out: "x ! t < int s * int d \<or> int (Suc s) * int d \<le> x ! t"
    with t have z: "shard_one_hot d s x ! t = replicate d 0"
      by (rule shard_one_hot_outside)
    have "length (shard_one_hot d s x) = length x"
      by (simp add: shard_one_hot_def Let_def)
    with t z have "EmbeddingShard_proj_out d (ps ! s) s x ! t = snd (ps ! s)"
      by (simp add: EmbeddingShard_proj_out_def Linear_zero_row)
    with z show "shard_one_hot d s x ! t = replicate d 0
          \<and> EmbeddingShard_proj_out d (ps ! s) s x ! t = snd (ps ! s)" by simp
  qed
next
  let ?tok = "x ! t"
  let ?o = "nat ?tok div d"
  have d: "0 < d"
  proof (rule ccontr)
    assume "\<not> 0 < d"
    with tok0 tokn show False by simp
  qed
  have "nat ?tok < length ps * d"
    using tok0 tokn by (simp add: nat_less_iff)
  then have o: "?o < length ps"
    using d by (simp add: less_mult_imp_div_less)
  have off: "nat (?tok - int ?o * int d) = nat ?tok mod d"
  proof -
    obtain m where m: "?tok = int m" using tok0 by (metis nat_0_le)
    have "int m = int (m div d * d + m mod d)" by simp
    then have "int m - int (m div d) * int d = int (m mod d)"
      by (simp only: of_nat_add of_nat_mult)
    then show ?thesis unfolding m by simp
  qed
  have row: "EmbeddingShard_proj_out d (ps ! s') s' x ! t ! j
        = (if s' = ?o then fst (ps ! ?o) ! (nat ?tok mod d) ! j else 0) + snd (ps ! s') ! j"
    if "s' < length ps" for s'
  proof -
    from that shape have "j < length (snd (ps ! s'))" using j by simp
    with t show ?thesis
      by (simp add: EmbeddingShard_proj_out_nth owner_shard [OF tok0 d] off)
  qed
  have "EmbeddingShard_call d ps x ! s ! t ! j
        = (\<Sum>s'\<leftarrow>[0..<length ps]. EmbeddingShard_proj_out d (ps ! s') s' x ! t ! j)"
    using shape s t j by (rule EmbeddingShard_call_nth)
  also have "\<dots> = (\<Sum>s'\<leftarrow>[0..<length ps].
        (if s' = ?o then fst (ps ! ?o) ! (nat ?tok mod d) ! j else 0) + snd (ps ! s') ! j)"
    by (rule arg_cong [where f = sum_list], rule map_cong) (simp_all add: row)
  also have "\<dots> = (\<Sum>s'\<leftarrow>[0..<length ps].
        (if s' = ?o then fst (ps ! ?o) ! (nat ?tok mod d) ! j else 0))
        + (\<Sum>s'\<leftarrow>[0..<length ps]. snd (ps ! s') ! j)"
    by (simp add: sum_list_addf)
  also have "(\<Sum>s'\<leftarrow>[0..<length ps].
        (if s' = ?o then fst (ps ! ?o) ! (nat ?tok mod d) ! j else 0))
        = fst (ps ! ?o) ! (nat ?tok mod d) ! j"
    using o by (simp add: sum_list_indicator)
  also have "(\<Sum>s'\<leftarrow>[0..<length ps]. snd (ps ! s') ! j) = (\<Sum>p\<leftarrow>ps. snd p ! j)"
  proof -
    have "map (\<lambda>s'. snd (ps ! s') ! j) [0..<length ps]
          = map (\<lambda>p. snd p ! j) (map (\<lambda>i. ps ! i) [0..<length ps])"
      by (simp add: comp_def)
    then show ?thesis by (simp add: map_nth)
  qed
  finally show "EmbeddingShard_call d ps x ! s ! t ! j
      = fst (ps ! ?o) ! (nat ?tok mod d) ! j + (\<Sum>p\<leftarrow>ps. snd p ! j)" .
qed


lemmas eval_defs = EmbeddingShard_call_def EmbeddingShard_proj_out_def shard_one_hot_def
  Linear_def g_psum2_def psum2_def tsum_def Let_def

theorem embedding_partial_outputs_and_sum_witness:
  "shard_one_hot 2 0 [3] ! 0 = replicate 2 0
   \<and> EmbeddingShard_proj_out 2 ([[5], [6]], [1]) 0 [3] ! 0 = [1]
   \<and> EmbeddingShard_call 2 [([[5], [6]], [1]), ([[7], [8]], [2])] [3] ! 0 ! 0 ! 0 = 11"
  using embedding_partial_outputs_and_sum
    [where ps = "[([[5], [6]], [1]), ([[7], [8]], [2])]" and out_dim = 1 and s = 0
       and x = "[3]" and t = 0 and j = 0 and d = 2]
  by simp

text \<open>
  Two shards with biases \<open>[1]\<close> and \<open>[2]\<close>, token 3 owned by shard 1 with weight row
  \<open>[8]\<close>: shard 0 sees an all-zero one-hot row and still contributes \<open>[1]\<close>, and the sum is
  \<open>[11]\<close>, not \<open>[8]\<close>.
\<close>

theorem embedding_bias_counterexample:
  "shard_one_hot 2 0 [3] = [[0, 0]]
   \<and> EmbeddingShard_proj_out 2 ([[5], [6]], [1]) 0 [3] = [[1]]
   \<and> EmbeddingShard_call 2 [([[5], [6]], [1]), ([[7], [8]], [2])] [3] = [[[11]], [[11]]]"
  by (simp add: eval_defs upt_conv_Cons)

section \<open>Properties of the sharded loss\<close>

lemma sum_list_map_concat:
  "(\<Sum>v\<leftarrow>concat xss. f v) = (\<Sum>xs\<leftarrow>xss. \<Sum>v\<leftarrow>xs. (f v :: real))"
  by (induction xss) simp_all

lemma concat_nth_uniform:
  assumes "\<forall>r\<in>set rows. length r = d" and "k < length rows * d"
  shows "concat rows ! k = rows ! (k div d) ! (k mod d)"
  using assms
proof (induction rows arbitrary: k)
  case Nil
  then show ?case by simp
next
  case (Cons r rows)
  have len: "length r = d" using Cons.prems(1) by simp
  show ?case
  proof (cases "k < d")
    case True
    then show ?thesis using len by (simp add: nth_append)
  next
    case False
    then have kd: "d \<le> k" by simp
    have d: "0 < d" using Cons.prems(2) by (cases d) auto
    from kd Cons.prems(2) have "k - d < length rows * d" by simp
    with Cons.IH [of "k - d"] Cons.prems(1)
    have "concat rows ! (k - d) = rows ! ((k - d) div d) ! ((k - d) mod d)" by simp
    moreover have "(k - d) mod d = k mod d" using kd by (simp add: le_mod_geq)
    moreover have "k div d = Suc ((k - d) div d)" using kd d by (simp add: le_div_geq)
    ultimately show ?thesis using False len by (simp add: nth_append)
  qed
qed

lemma sum_list_one_hot:
  assumes "length row = d"
  shows "sum_list (map2 (*) (one_hot k d) row)
         = (if 0 \<le> k \<and> k < int d then row ! nat k else 0)"
proof -
  have "map2 (*) (one_hot k d) row = map (\<lambda>j. (if j = nat k \<and> 0 \<le> k then row ! j else 0)) [0..<d]"
    using assms by (intro nth_equalityI) (auto simp: one_hot_def)
  moreover have "(\<Sum>j\<leftarrow>[0..<d]. (if j = nat k \<and> 0 \<le> k then row ! j else 0))
      = (if 0 \<le> k \<and> k < int d then row ! nat k else 0)"
  proof (cases "0 \<le> k")
    case True
    then show ?thesis by (simp add: sum_list_indicator nat_less_iff)
  next
    case False
    then show ?thesis by simp
  qed
  ultimately show ?thesis by simp
qed

lemma sum_list_exp_shift:
  "(\<Sum>v\<leftarrow>row. exp (v - m)) = exp (- m) * (\<Sum>v\<leftarrow>row. exp (v :: real))"
proof -
  have "(\<Sum>v\<leftarrow>row. exp (v - m)) = (\<Sum>v\<leftarrow>row. exp (- m) * exp v)"
    by (simp add: exp_diff exp_minus divide_inverse mult.commute)
  then show ?thesis by (simp add: sum_list_const_mult)
qed

lemma sum_list_exp_nonneg: "0 \<le> (\<Sum>v\<leftarrow>row. exp (v :: real))"
  by (rule sum_list_nonneg) auto

lemma sum_list_exp_pos:
  assumes "row \<noteq> []"
  shows "0 < (\<Sum>v\<leftarrow>row. exp (v :: real))"
proof (cases row)
  case Nil
  with assms show ?thesis by simp
next
  case (Cons a rest)
  have "0 < exp a + (\<Sum>v\<leftarrow>rest. exp v)"
    by (rule add_pos_nonneg) (simp_all add: sum_list_exp_nonneg)
  with Cons show ?thesis by simp
qed

lemma length_tmax: "xs \<noteq> [] \<Longrightarrow> length (tmax xs) = length (hd xs)"
  by (cases xs) (simp_all add: tmax_def)

lemma pmax_nth: "s < length xs \<Longrightarrow> pmax xs ! s = tmax xs"
  by (simp add: pmax_def)


lemma sum_list_by_index:
  "(\<Sum>v\<leftarrow>xs. f v) = (\<Sum>i\<leftarrow>[0..<length xs]. (f (xs ! i) :: real))"
proof -
  have "map f xs = map (\<lambda>i. f (xs ! i)) [0..<length xs]"
    by (intro nth_equalityI) simp_all
  then show ?thesis by simp
qed

lemma g_psum_nth:
  assumes "s < length xs" and "t < length (hd xs)"
  shows "g_psum xs ! s ! t = (\<Sum>i\<leftarrow>[0..<length xs]. xs ! i ! t)"
proof -
  from assms(1) have "xs \<noteq> []" by auto
  with assms show ?thesis
    by (simp add: g_psum_def psum_nth tsum_nth sum_list_by_index [of "\<lambda>v. v ! t"])
qed

text \<open>
  Claim C1, over the reals. Let the shards' logits \<open>proj_fn (norm_fn x)\<close> all have one
  row per target and \<open>d\<close> entries per row, and let the target of token \<open>t\<close> be a token of
  the vocabulary (\<open>0 \<le> target < shards * d\<close>). Then on every shard \<open>s\<close> the loss of token
  \<open>t\<close> is \<^verbatim>\<open>log(sum(exp(allLogits))) - allLogits[target]\<close> on the concatenated logits of
  that token. Whatever the max-reduce returns cancels.
\<close>

theorem sharded_loss_equals_reference:
  assumes shape: "\<forall>l\<in>set (proj_fn (norm_fn x)).
                    length l = length targets \<and> (\<forall>row\<in>set l. length row = d)"
    and s: "s < length (proj_fn (norm_fn x))" and t: "t < length targets"
    and tok0: "0 \<le> targets ! t"
    and tokn: "targets ! t < int (length (proj_fn (norm_fn x))) * int d"
  shows "ProjectionShard_loss norm_fn proj_fn d x targets ! s ! t
         = reference_loss (all_logits (proj_fn (norm_fn x)) t) (nat (targets ! t))"
proof -
  define L where "L = proj_fn (norm_fn x)"
  define n where "n = length L"
  define T where "T = length targets"
  define tok where "tok = targets ! t"
  define M where "M = pmax (map (\<lambda>l. map row_max l) L)"
  define SL where "SL = map2 (\<lambda>l m. map2 (\<lambda>row mt. map (\<lambda>v. v - mt) row) l m) L M"
  define OH where "OH = map (\<lambda>st. map (\<lambda>t. one_hot (t - st) d) targets)
                          (map (\<lambda>s. int s * int d) [0..<length L])"
  define PL where "PL = map2 (\<lambda>oh l. map2 (\<lambda>orow lrow. sum_list (map2 (*) orow lrow)) oh l) OH SL"
  define SE where "SE = map (map sum_list) (map (map (map exp)) SL)"
  have res: "ProjectionShard_loss norm_fn proj_fn d x targets
             = map2 (\<lambda>se pl. map2 (\<lambda>a b. ln a - b) se pl) (g_psum SE) (g_psum PL)"
    unfolding ProjectionShard_loss_def Let_def f_psum_def stop_gradient_def
      SE_def PL_def OH_def SL_def M_def L_def ..
  have n: "0 < n" and sn: "s < n" using s by (auto simp: n_def L_def)
  have d: "0 < d"
  proof (rule ccontr)
    assume "\<not> 0 < d"
    with tok0 tokn show False by simp
  qed
  have lenL: "length (L ! s') = T" if "s' < n" for s'
    using shape that by (simp add: L_def n_def T_def)
  have lenrow: "length (L ! s' ! t') = d" if "s' < n" "t' < T" for s' t'
  proof -
    have "L ! s' \<in> set L" using that(1) by (simp add: n_def)
    moreover have "L ! s' ! t' \<in> set (L ! s')" using that lenL by simp
    ultimately show ?thesis using shape by (auto simp: L_def)
  qed
  define m where "m = tmax (map (\<lambda>l. map row_max l) L)"
  have lenm: "length m = T"
  proof -
    have "map (\<lambda>l. map row_max l) L \<noteq> []" using n by (auto simp: n_def)
    then have "length m = length (hd (map (\<lambda>l. map row_max l) L))"
      unfolding m_def by (rule length_tmax)
    also have "\<dots> = length (L ! 0)"
      using n by (cases L) (simp_all add: n_def)
    finally show ?thesis using lenL [OF n] by simp
  qed
  have lenM: "length M = n" by (simp add: M_def pmax_def n_def)
  have M: "M ! s' = m" if "s' < n" for s'
    using that by (simp add: M_def pmax_def n_def m_def)
  have lenSL: "length SL = n" by (simp add: SL_def lenM n_def)
  have SL: "SL ! s' ! t' = map (\<lambda>v. v - m ! t') (L ! s' ! t')"
    and lenSLs: "length (SL ! s') = T" if "s' < n" "t' < T" for s' t'
    using that lenM lenL lenm M by (simp_all add: SL_def n_def)
  have lenOH: "length OH = n" by (simp add: OH_def n_def)
  have OH: "OH ! s' ! t' = one_hot (targets ! t' - int s' * int d) d"
    and lenOHs: "length (OH ! s') = T" if "s' < n" "t' < T" for s' t'
    using that by (simp_all add: OH_def n_def T_def)
  have lenPL: "length PL = n" by (simp add: PL_def lenOH lenSL)
  have tT: "t < T" using t by (simp add: T_def)
  have lenPLs: "length (PL ! s') = T" if "s' < n" for s'
    using that lenOH lenSL lenOHs [OF that tT] lenSLs [OF that tT] by (simp add: PL_def)
  define ow where "ow = nat tok div d"
  have tokb: "nat tok < n * d"
    using tok0 tokn by (simp add: tok_def nat_less_iff n_def L_def)
  then have ow: "ow < n" using d by (simp add: ow_def less_mult_imp_div_less)
  have PL: "PL ! s' ! t = (if s' = ow then L ! ow ! t ! (nat tok mod d) - m ! t else 0)"
    if "s' < n" for s'
  proof -
    have "PL ! s' ! t = sum_list (map2 (*) (OH ! s' ! t) (SL ! s' ! t))"
      using that tT lenOH lenSL lenOHs [OF that tT] lenSLs [OF that tT] by (simp add: PL_def)
    also have "\<dots> = sum_list (map2 (*) (one_hot (tok - int s' * int d) d)
                                   (map (\<lambda>v. v - m ! t) (L ! s' ! t)))"
      using that tT by (simp add: OH SL tok_def)
    also have "\<dots> = (if 0 \<le> tok - int s' * int d \<and> tok - int s' * int d < int d
                       then map (\<lambda>v. v - m ! t) (L ! s' ! t) ! nat (tok - int s' * int d) else 0)"
      by (rule sum_list_one_hot) (simp add: lenrow that tT)
    also have "\<dots> = (if s' = ow then L ! ow ! t ! (nat tok mod d) - m ! t else 0)"
    proof (cases "s' = ow")
      case True
      have own: "int s' * int d \<le> tok \<and> tok < int s' * int d + int d"
        using owner_shard [of tok d s'] tok0 d True by (simp add: tok_def ow_def)
      have off: "nat (tok - int s' * int d) = nat tok mod d"
      proof -
        obtain k where k: "tok = int k" using tok0 by (metis nat_0_le tok_def)
        have "int k = int (k div d * d + k mod d)" by simp
        then have "int k - int (k div d) * int d = int (k mod d)"
          by (simp only: of_nat_add of_nat_mult)
        then show ?thesis using True unfolding k ow_def by simp
      qed
      have "nat tok mod d < length (L ! s' ! t)"
        using d by (simp add: lenrow that tT)
      with own off True show ?thesis by simp
    next
      case False
      then have "\<not> (int s' * int d \<le> tok \<and> tok < int s' * int d + int d)"
        using owner_shard [of tok d s'] tok0 d by (simp add: tok_def ow_def)
      with False show ?thesis by auto
    qed
    finally show ?thesis .
  qed
  have hdPL: "length (hd PL) = T"
    using lenPLs [OF n] lenPL n by (cases PL) auto
  have gPL: "g_psum PL ! s ! t = L ! ow ! t ! (nat tok mod d) - m ! t"
  proof -
    have "g_psum PL ! s ! t = (\<Sum>i\<leftarrow>[0..<length PL]. PL ! i ! t)"
      by (rule g_psum_nth) (simp_all add: lenPL sn hdPL tT)
    also have "\<dots> = (\<Sum>i\<leftarrow>[0..<n]. (if i = ow then L ! ow ! t ! (nat tok mod d) - m ! t else 0))"
      unfolding lenPL by (rule arg_cong [where f = sum_list], rule map_cong) (simp_all add: PL)
    also have "\<dots> = L ! ow ! t ! (nat tok mod d) - m ! t"
      using ow by (simp add: sum_list_indicator)
    finally show ?thesis .
  qed
  have lenSE: "length SE = n" by (simp add: SE_def lenSL)
  have lenSEs: "length (SE ! s') = T" if "s' < n" for s'
    using that lenSL lenSLs [OF that tT] by (simp add: SE_def)
  have SE: "SE ! s' ! t = exp (- m ! t) * (\<Sum>v\<leftarrow>L ! s' ! t. exp v)" if "s' < n" for s'
  proof -
    have "SE ! s' ! t = sum_list (map exp (SL ! s' ! t))"
      using that tT lenSL lenSLs [OF that tT] by (simp add: SE_def)
    also have "\<dots> = (\<Sum>v\<leftarrow>L ! s' ! t. exp (v - m ! t))"
      using that tT by (simp add: SL comp_def)
    finally show ?thesis by (simp add: sum_list_exp_shift)
  qed
  have hdSE: "length (hd SE) = T"
    using lenSEs [OF n] lenSE n by (cases SE) auto
  define S where "S = (\<Sum>v\<leftarrow>all_logits L t. exp v)"
  have gSE: "g_psum SE ! s ! t = exp (- m ! t) * S"
  proof -
    have "g_psum SE ! s ! t = (\<Sum>i\<leftarrow>[0..<length SE]. SE ! i ! t)"
      by (rule g_psum_nth) (simp_all add: lenSE sn hdSE tT)
    also have "\<dots> = (\<Sum>i\<leftarrow>[0..<n]. exp (- m ! t) * (\<Sum>v\<leftarrow>L ! i ! t. exp v))"
      unfolding lenSE by (rule arg_cong [where f = sum_list], rule map_cong) (simp_all add: SE)
    also have "\<dots> = exp (- m ! t) * (\<Sum>i\<leftarrow>[0..<length L]. (\<Sum>v\<leftarrow>L ! i ! t. exp v))"
      by (simp add: sum_list_const_mult n_def)
    also have "(\<Sum>i\<leftarrow>[0..<length L]. (\<Sum>v\<leftarrow>L ! i ! t. exp v)) = (\<Sum>l\<leftarrow>L. \<Sum>v\<leftarrow>l ! t. exp v)"
      by (rule sum_list_by_index [symmetric])
    also have "\<dots> = S"
      by (simp add: S_def all_logits_def sum_list_map_concat comp_def)
    finally show ?thesis .
  qed
  have rows: "\<forall>r\<in>set (map (\<lambda>l. l ! t) L). length r = d"
  proof
    fix r assume "r \<in> set (map (\<lambda>l. l ! t) L)"
    then obtain i where "i < n" "r = L ! i ! t"
      by (auto simp: in_set_conv_nth n_def)
    then show "length r = d" using lenrow tT by simp
  qed
  have target: "all_logits L t ! nat tok = L ! ow ! t ! (nat tok mod d)"
  proof -
    have "concat (map (\<lambda>l. l ! t) L) ! nat tok
          = map (\<lambda>l. l ! t) L ! (nat tok div d) ! (nat tok mod d)"
      using rows by (rule concat_nth_uniform) (use tokb in \<open>simp add: n_def\<close>)
    then show ?thesis using ow by (simp add: all_logits_def ow_def n_def)
  qed
  have Spos: "0 < S"
  proof -
    have "L ! s ! t \<in> set (map (\<lambda>l. l ! t) L)" using sn by (simp add: n_def)
    moreover have "L ! s ! t \<noteq> []" using lenrow [OF sn tT] d by auto
    ultimately have "all_logits L t \<noteq> []" by (auto simp: all_logits_def)
    then show ?thesis unfolding S_def by (rule sum_list_exp_pos)
  qed
  have "length (g_psum SE) = n" "length (g_psum PL) = n"
    by (simp_all add: g_psum_def length_psum lenSE lenPL)
  moreover have "SE \<noteq> []" "PL \<noteq> []" using n lenSE lenPL by auto
  then have "length (g_psum SE ! s) = T" "length (g_psum PL ! s) = T"
    using sn lenSE lenPL hdSE hdPL
    by (simp_all add: g_psum_def psum_nth length_tsum)
  ultimately have "ProjectionShard_loss norm_fn proj_fn d x targets ! s ! t
        = ln (g_psum SE ! s ! t) - g_psum PL ! s ! t"
    using sn tT by (simp add: res)
  also have "\<dots> = ln (exp (- m ! t) * S) - (L ! ow ! t ! (nat tok mod d) - m ! t)"
    by (simp only: gSE gPL)
  also have "ln (exp (- m ! t) * S) = - m ! t + ln S"
    using Spos by (simp add: ln_mult)
  finally have "ProjectionShard_loss norm_fn proj_fn d x targets ! s ! t
        = ln S - all_logits L t ! nat tok"
    by (simp add: target)
  then show ?thesis
    by (simp add: reference_loss_def S_def L_def tok_def)
qed


theorem sharded_loss_equals_reference_witness:
  "ProjectionShard_loss (\<lambda>x. x) (\<lambda>x. x) 4 [[[1, 2, 3, 4]], [[5, 6, 7, 8]]] [6] ! 1 ! 0
   = reference_loss [1, 2, 3, 4, 5, 6, 7, 8] 6"
  using sharded_loss_equals_reference
    [where norm_fn = "\<lambda>x. x" and proj_fn = "\<lambda>x. x" and d = 4
       and x = "[[[1, 2, 3, 4]], [[5, 6, 7, 8]]]" and targets = "[6]" and s = 1 and t = 0]
  by (simp add: all_logits_def)

section \<open>Properties of the position buckets\<close>

lemma int32_wrap_in_range:
  assumes "- (2 ^ 31) \<le> x" and "x < 2 ^ 31"
  shows "int32_wrap x = x"
proof -
  have "0 \<le> x + 2 ^ 31" "x + 2 ^ 31 < 2 ^ 32" using assms by simp_all
  then have "(x + 2 ^ 31) mod 2 ^ 32 = x + 2 ^ 31" by (rule mod_pos_pos_trivial)
  then show ?thesis by (simp add: int32_wrap_def)
qed

lemma bucket_unfold:
  assumes "- (2 ^ 31) < d" and "d < 2 ^ 31"
  shows "bucket d =
    (if max (- d) 0 < 16 then max (- d) 0
     else min (16 + float_to_int (ln (real_of_int (max (- d) 0) / 16 + float32_eps) / ln 8 * 16)) 31)"
proof -
  have "int32_wrap (- d) = - d"
    using assms by (intro int32_wrap_in_range) simp_all
  then show ?thesis
    by (simp add: bucket_def relative_position_bucket_def Let_def)
qed

lemma log_part_nonneg:
  assumes "16 \<le> n"
  shows "0 \<le> ln (real_of_int n / 16 + float32_eps) / ln 8 * 16"
proof -
  have "1 \<le> real_of_int n / 16" using assms by simp
  moreover have "0 \<le> float32_eps" by (simp add: float32_eps_def)
  ultimately have "1 \<le> real_of_int n / 16 + float32_eps" by linarith
  then have "0 \<le> ln (real_of_int n / 16 + float32_eps)" by simp
  moreover have "0 < ln (8::real)" by simp
  ultimately show ?thesis by simp
qed

lemma log_part_mono:
  assumes "16 \<le> n" and "n \<le> n'"
  shows "ln (real_of_int n / 16 + float32_eps) / ln 8 * 16
         \<le> ln (real_of_int n' / 16 + float32_eps) / ln 8 * 16"
proof -
  have "0 < real_of_int n / 16 + float32_eps"
    using assms(1) by (simp add: float32_eps_def add_pos_pos)
  moreover have "real_of_int n / 16 + float32_eps \<le> real_of_int n' / 16 + float32_eps"
    using assms(2) by simp
  ultimately have "ln (real_of_int n / 16 + float32_eps) \<le> ln (real_of_int n' / 16 + float32_eps)"
    by simp
  moreover have "0 < ln (8::real)" by simp
  ultimately show ?thesis by (simp add: divide_right_mono)
qed

lemma float_to_int_mono: "0 \<le> a \<Longrightarrow> a \<le> b \<Longrightarrow> float_to_int a \<le> float_to_int b"
  by (simp add: float_to_int_def floor_mono)

lemma float_to_int_nonneg: "0 \<le> a \<Longrightarrow> 0 \<le> float_to_int a"
  by (simp add: float_to_int_def)

text \<open>
  Claim C5, with the logarithm over the reals, for the offsets an \<^verbatim>\<open>int32\<close> difference
  of two positions can take (\<open>- 2^31 < d < 2^31\<close>): the bucket does not decrease when
  \<open>- d\<close> grows (\<open>d \<le> d'\<close> gives \<open>bucket d' \<le> bucket d\<close>, for offsets below zero in
  particular), it is \<open>max (- d) 0\<close> exactly when that is below 16, and it lies between 0
  and 31.
\<close>

theorem bucket_properties:
  assumes "- (2 ^ 31) < d" and "d \<le> d'" and "d' < 2 ^ 31"
  shows "bucket d' \<le> bucket d
         \<and> (max (- d) 0 < 16 \<longrightarrow> bucket d = max (- d) 0)
         \<and> 0 \<le> bucket d \<and> bucket d \<le> 31"
proof -
  define n where "n = max (- d) 0"
  define n' where "n' = max (- d') 0"
  define f where "f k = min (16 + float_to_int (ln (real_of_int k / 16 + float32_eps) / ln 8 * 16)) 31"
    for k :: int
  have b: "bucket d = (if n < 16 then n else f n)"
    using assms by (simp add: bucket_unfold n_def f_def)
  have b': "bucket d' = (if n' < 16 then n' else f n')"
    using assms by (simp add: bucket_unfold n'_def f_def)
  have le: "n' \<le> n" and n0: "0 \<le> n" "0 \<le> n'"
    using assms(2) by (simp_all add: n_def n'_def)
  have f16: "16 \<le> f k" and f31: "f k \<le> 31" if "16 \<le> k" for k
  proof -
    have "0 \<le> float_to_int (ln (real_of_int k / 16 + float32_eps) / ln 8 * 16)"
      using that by (intro float_to_int_nonneg log_part_nonneg)
    then show "16 \<le> f k" by (simp add: f_def)
    show "f k \<le> 31" by (simp add: f_def)
  qed
  have fmono: "f k \<le> f k'" if "16 \<le> k" "k \<le> k'" for k k'
  proof -
    have "float_to_int (ln (real_of_int k / 16 + float32_eps) / ln 8 * 16)
          \<le> float_to_int (ln (real_of_int k' / 16 + float32_eps) / ln 8 * 16)"
      using that by (intro float_to_int_mono log_part_nonneg log_part_mono)
    then show ?thesis by (simp add: f_def)
  qed
  have mono: "bucket d' \<le> bucket d"
  proof (cases "n < 16")
    case True
    with le b b' show ?thesis by simp
  next
    case False
    then have n16: "16 \<le> n" by simp
    show ?thesis
    proof (cases "n' < 16")
      case True
      with n16 f16 [OF n16] b b' show ?thesis by simp
    next
      case False
      then have "16 \<le> n'" by simp
      with le fmono [of n' n] b b' n16 show ?thesis by simp
    qed
  qed
  have exact: "max (- d) 0 < 16 \<longrightarrow> bucket d = max (- d) 0"
    using b by (simp add: n_def)
  have bounds: "0 \<le> bucket d \<and> bucket d \<le> 31"
  proof (cases "n < 16")
    case True
    with b n0 show ?thesis by simp
  next
    case False
    then have "16 \<le> n" by simp
    from f16 [OF this] f31 [OF this] b False show ?thesis by simp
  qed
  from mono exact bounds show ?thesis by blast
qed

theorem bucket_properties_witness:
  "bucket (- 3) \<le> bucket (- 5) \<and> bucket (- 5) = 5 \<and> 0 \<le> bucket (- 5) \<and> bucket (- 5) \<le> 31"
  using bucket_properties [of "- 5" "- 3"] by simp

text \<open>
  The offset \<open>- 2^31\<close> itself is outside that range: its negation wraps around and the
  bucket is 0. Two values of the log-scaled regime follow.
\<close>

lemma bucket_int32_min: "bucket (- (2 ^ 31)) = 0"
  by (simp add: bucket_def relative_position_bucket_def int32_wrap_def Let_def)


lemma bucket_16: "bucket (- 16) = 16"
proof -
  have e: "0 \<le> float32_eps" "float32_eps < 1 / 16" by (simp_all add: float32_eps_def)
  have "ln (1 + float32_eps) \<le> float32_eps" using e(1) by (rule ln_add_one_self_le_self)
  moreover have "1 \<le> ln (8::real)"
  proof -
    have "exp 1 \<le> (8::real)" using exp_le by linarith
    then show ?thesis by (simp add: ln_ge_iff)
  qed
  moreover have "0 \<le> ln (1 + float32_eps)" using e(1) by simp
  ultimately have "0 \<le> ln (1 + float32_eps) / ln 8 * 16" "ln (1 + float32_eps) / ln 8 * 16 < 1"
    using e(2) by (simp_all add: field_simps)
  then have "float_to_int (ln (1 + float32_eps) / ln 8 * 16) = 0"
    by (simp add: float_to_int_def floor_eq_iff)
  then show ?thesis by (simp add: bucket_unfold)
qed

lemma bucket_128: "bucket (- 128) = 31"
proof -
  have e: "0 \<le> float32_eps" by (simp add: float32_eps_def)
  have l8: "0 < ln (8::real)" by simp
  have "ln (8::real) \<le> ln (8 + float32_eps)" using e by simp
  then have "1 \<le> ln (8 + float32_eps) / ln 8" using l8 by (simp add: field_simps)
  then have "1 * 16 \<le> ln (8 + float32_eps) / ln 8 * 16" by (rule mult_right_mono) simp
  then have "16 \<le> float_to_int (ln (8 + float32_eps) / ln 8 * 16)"
    by (simp add: float_to_int_def le_floor_iff)
  then show ?thesis by (simp add: bucket_unfold)
qed


section \<open>Properties of RMSNorm\<close>








text \<open>The values of that example: the scale 2 and the offset 1 are applied as they are.\<close>

lemma RMSNorm_replicated_example:
  "RMSNorm_call True [[2], [2]] [[1], [1]] [[[1]], [[1]]]
     = [[[300001 / 100001]], [[300001 / 100001]]]
   \<and> shard_dot (pmean [[1], [5]]) [[4], [8]] = 36
   \<and> f_pmean_bwd () [[4], [8]] = [[6], [6]]"
  by (simp add: RMSNorm_call_def pmean_def tsum_def f_pmean_bwd_def shard_dot_def
      normed_row_def broadcast_def Let_def field_simps)

text \<open>
  Were two shards to hold different values (scales 1 and 3, offsets 0 and 2), the mean
  would be applied on both: the scale 2 and the offset 1.
\<close>

lemma RMSNorm_unreplicated_example:
  "pmean [[1], [3]] = [[2], [2]]
   \<and> f_pmean [[1], [3 :: real]] = [[1], [3]]
   \<and> RMSNorm_call True [[1], [3]] [[0], [2]] [[[1]], [[1]]]
       = [[[300001 / 100001]], [[300001 / 100001]]]
   \<and> RMSNorm_call_spec True [[1], [3]] [[0], [2]] [[[1]], [[1]]]
       = [[[100000 / 100001]], [[500002 / 100001]]]"
  by (simp add: RMSNorm_call_def RMSNorm_call_spec_def pmean_def tsum_def f_pmean_def
      normed_row_def broadcast_def Let_def field_simps)

section \<open>Properties of the model assembly\<close>

lemma layer_loop_append:
  "layer_loop (ls @ ls') b x = layer_loop ls' b (layer_loop ls b x)"
  by (induction ls arbitrary: x) simp_all

lemma layer_loop_foldl:
  "layer_loop ls b x = foldl (\<lambda>y l. residual_add y (l y b)) x ls"
  by (induction ls arbitrary: x) simp_all

lemma residual_add_shape:
  assumes "length z = length y" and "s < length y" and "length (z ! s) = length (y ! s)"
    and "t < length (y ! s)" and "length (z ! s ! t) = length (y ! s ! t)"
    and "j < length (y ! s ! t)"
  shows "length (residual_add y z) = length y"
    and "length (residual_add y z ! s) = length (y ! s)"
    and "length (residual_add y z ! s ! t) = length (y ! s ! t)"
    and "residual_add y z ! s ! t ! j = y ! s ! t ! j + z ! s ! t ! j"
  using assms by (simp_all add: residual_add_def)

text \<open>
  Claim C10: every layer of the stack is applied through an additive residual
  connection. With no layer the activations are returned as they are; after the layers
  \<open>ls\<close>, the next layer \<open>l\<close> turns the activations \<open>y\<close> into \<open>y + l y\<close>, so that the loop is
  the left fold of that step over the stack, starting from the embedding; the sum is
  elementwise, on every shard and with the shape of \<open>y\<close>; and the loss is computed from
  the activations that the loop leaves.
\<close>

theorem layers_are_residual:
  "layer_loop [] b x = x
   \<and> layer_loop (ls @ [l]) b x = residual_add (layer_loop ls b x) (l (layer_loop ls b x) b)
   \<and> layer_loop lys b x = foldl (\<lambda>y l. residual_add y (l y b)) x lys
   \<and> CausalTransformerShard_eval rpe idps ps lys nf pf dps hps ctx tgt
       = ProjectionShard_loss nf pf dps
           (layer_loop lys (rpe (length ctx) (length ctx) hps 32)
              (EmbeddingShard_call idps ps ctx)) tgt
   \<and> (length z = length y \<and> s < length y \<and> length (z ! s) = length (y ! s)
        \<and> t < length (y ! s) \<and> length (z ! s ! t) = length (y ! s ! t)
        \<and> j < length (y ! s ! t)
       \<longrightarrow> length (residual_add y z) = length y
           \<and> length (residual_add y z ! s) = length (y ! s)
           \<and> length (residual_add y z ! s ! t) = length (y ! s ! t)
           \<and> residual_add y z ! s ! t ! j = y ! s ! t ! j + z ! s ! t ! j)"
proof -
  have snoc: "layer_loop (ls @ [l]) b x
              = residual_add (layer_loop ls b x) (l (layer_loop ls b x) b)"
    by (simp add: layer_loop_append)
  have ev: "CausalTransformerShard_eval rpe idps ps lys nf pf dps hps ctx tgt
       = ProjectionShard_loss nf pf dps
           (layer_loop lys (rpe (length ctx) (length ctx) hps 32)
              (EmbeddingShard_call idps ps ctx)) tgt"
    by (simp add: CausalTransformerShard_eval_def Let_def)
  have res: "length z = length y \<and> s < length y \<and> length (z ! s) = length (y ! s)
        \<and> t < length (y ! s) \<and> length (z ! s ! t) = length (y ! s ! t)
        \<and> j < length (y ! s ! t)
       \<longrightarrow> length (residual_add y z) = length y
           \<and> length (residual_add y z ! s) = length (y ! s)
           \<and> length (residual_add y z ! s ! t) = length (y ! s ! t)
           \<and> residual_add y z ! s ! t ! j = y ! s ! t ! j + z ! s ! t ! j"
    using residual_add_shape [of z y s t j] by blast
  have nil: "layer_loop [] b x = x" by simp
  have fold: "layer_loop lys b x = foldl (\<lambda>y l. residual_add y (l y b)) x lys"
    by (rule layer_loop_foldl)
  from nil snoc fold ev res show ?thesis by blast
qed

theorem layers_are_residual_witness:
  "layer_loop [] (2::real) [[[1]]] = [[[1]]]
   \<and> layer_loop ([\<lambda>x b. map (map (map (\<lambda>v. v * b))) x]
                  @ [\<lambda>x b. map (map (map (\<lambda>v. v * b))) x]) 2 [[[1]]] = [[[9]]]
   \<and> residual_add [[[1]]] [[[2]]] = [[[3]]]
   \<and> residual_add [[[1]]] [[[2]]] ! 0 ! 0 ! 0 = 1 + 2"
  using layers_are_residual
    [where ls = "[\<lambda>x b. map (map (map (\<lambda>v. v * b))) x]"
       and l = "\<lambda>x b. map (map (map (\<lambda>v. v * b))) x" and b = "2::real" and x = "[[[1]]]"
       and y = "[[[1]]]" and z = "[[[2]]]" and s = 0 and t = 0 and j = 0
       and rpe = "\<lambda>q k h n. 2::real" and idps = 1 and ps = "[([[1]], [0])]" and lys = "[]"
       and nf = "\<lambda>x. x" and pf = "\<lambda>x. x" and dps = 1 and hps = 1 and ctx = "[0]"
       and tgt = "[0]"]
  by (simp add: residual_add_def)

text \<open>Two layers that each double their input: 1 becomes 1 + 2 = 3, then 3 + 6 = 9.\<close>

lemma layer_loop_example:
  "layer_loop [\<lambda>x b. map (map (map (\<lambda>v. v * b))) x, \<lambda>x b. map (map (map (\<lambda>v. v * b))) x]
     (2::real) [[[1]]] = [[[9]]]"
  by (simp add: residual_add_def)

section \<open>Properties of evaluation and training\<close>

text \<open>
  Claim C9: \<^verbatim>\<open>CausalTransformer.eval\<close> leaves the object, and so the training state,
  as it was, and evaluating again with the same state and batch gives the same loss.
  The loss is the mean over the replicas of the forward loss on the parameters cast to
  reduced precision: no gradient and no optimizer take part.
\<close>

theorem eval_is_pure:
  "snd (CausalTransformer_eval eval_loss_fn self sample) = self
   \<and> fst (CausalTransformer_eval eval_loss_fn
            (snd (CausalTransformer_eval eval_loss_fn self sample)) sample)
       = fst (CausalTransformer_eval eval_loss_fn self sample)
   \<and> fst (CausalTransformer_eval eval_loss_fn self sample)
       = np_mean (map (\<lambda>(ctx, tgt). eval_loss_fn (to_bf16 (params (ct_state self))) ctx tgt)
                    (zip (fst sample) (snd sample)))"
  by (cases sample) (simp add: CausalTransformer_eval_def eval_def Let_def)


lemma scan_microbatch:
  "scan (microbatch vg st) g0 xs =
     (foldl (\<lambda>g (c, t). tree_multimap array_add g (snd (vg (to_bf16 (params st)) c t))) g0 xs,
      map (\<lambda>(c, t). fst (vg (to_bf16 (params st)) c t)) xs)"
  by (induction xs arbitrary: g0) (simp_all add: microbatch_def split: prod.splits)

lemma zero_accumulator:
  "a \<in> set (map (\<lambda>x. astype bfloat16 (zeros_like x)) ps) \<Longrightarrow>
   dtype_of a = bfloat16 \<and> (\<forall>v\<in>set (data a). v = 0)"
  by (auto simp: astype_def zeros_like_def)

lemma to_bf16_not_float32: "a \<in> set (to_bf16 ps) \<Longrightarrow> dtype_of a \<noteq> float32"
  by (auto simp: to_bf16_def astype_def)

lemma to_f32_not_bfloat16: "a \<in> set (to_f32 ps) \<Longrightarrow> dtype_of a \<noteq> bfloat16"
  by (auto simp: to_f32_def astype_def)

lemma tree_mean_nth:
  assumes "ts \<noteq> []" and "i < length (hd ts)" and "k < length (data (hd ts ! i))"
  shows "data (tree_mean ts ! i) ! k = (\<Sum>t\<leftarrow>ts. data (t ! i) ! k) / real (length ts)"
    and "dtype_of (tree_mean ts ! i) = dtype_of (hd ts ! i)"
proof -
  obtain t0 rest where ts: "ts = t0 # rest" using assms(1) by (cases ts) auto
  have "tsum (map (\<lambda>t. data (t ! i)) ts) ! k = (\<Sum>v\<leftarrow>map (\<lambda>t. data (t ! i)) ts. v ! k)"
    by (rule tsum_nth) (use assms ts in simp_all)
  then show "data (tree_mean ts ! i) ! k = (\<Sum>t\<leftarrow>ts. data (t ! i) ! k) / real (length ts)"
    using assms ts by (simp add: tree_mean_def comp_def length_tsum)
  show "dtype_of (tree_mean ts ! i) = dtype_of (hd ts ! i)"
    using assms ts by (simp add: tree_mean_def)
qed

lemma sint_succ_wraps: "sint (w + 1 :: 32 word) = int32_wrap (sint w + 1)"
  by (simp add: sint_word_ariths int32_wrap_def signed_take_bit_eq_take_bit_shift
      take_bit_eq_mod)

lemma step_wraps_at_max: "sint ((2147483647 :: 32 word) + 1) = - 2147483648"
  by simp

text \<open>
  Claim C3, as the code has it. On every replica \<open>r\<close> the step casts the parameters to
  reduced precision, folds the micro-batch gradients from the left into an accumulator
  that starts as zeros in reduced precision, takes the mean of the accumulators over the
  replicas, hands that mean, still in reduced precision, to the optimizer, casts the
  optimizer's updates to full precision, adds them to the parameters and increments the
  step counter in \<^verbatim>\<open>int32\<close> arithmetic, where \<open>2^31 - 1\<close> is followed by \<open>- 2^31\<close>; the
  losses are returned in full precision.
\<close>

theorem train_steps:
  assumes "r < length batches"
  shows "train optimizer vg state batches ! r =
     (let p16 = to_bf16 (params state);
          zero = map (\<lambda>x. astype bfloat16 (zeros_like x)) (params state);
          acc = (\<lambda>(ctx, tgt). foldl (\<lambda>g (c, t). tree_multimap array_add g (snd (vg p16 c t)))
                                zero (zip ctx tgt));
          grad = tree_mean (map acc batches)
      in case opt_update optimizer grad (opt_state state) (params state) of
           (updates, new_opt_state) \<Rightarrow>
             (to_f32 (map (\<lambda>(c, t). fst (vg p16 c t))
                        (zip (fst (batches ! r)) (snd (batches ! r)))),
              \<lparr>params = apply_updates (params state) (to_f32 updates),
               step = step state + 1,
               opt_state = new_opt_state\<rparr>))
     \<and> sint (step (snd (train optimizer vg state batches ! r)))
         = int32_wrap (sint (step state) + 1)"
  using assms
  by (simp add: train_def Let_def pmean_batch_def scan_microbatch comp_def case_prod_unfold
      sint_succ_wraps)


lemmas train_eval_defs = to_bf16_def to_f32_def astype_def zeros_like_def array_add_def
  result_type_def tree_multimap_def apply_updates_def tree_mean_def tsum_def

theorem train_steps_witness:
  "train \<lparr>opt_init = (\<lambda>p. p), opt_update = (\<lambda>g os p. (g, g))\<rparr>
     (\<lambda>p c t. (Array bfloat16 [1], [Array bfloat16 [real_of_int (hd c)]]))
     \<lparr>params = [Array float32 [10]], step = 0, opt_state = []\<rparr>
     [([[1], [2]], [[2], [3]]), ([[3], [4]], [[4], [5]])] ! 0
   = ([Array float32 [1], Array float32 [1]],
      \<lparr>params = [Array float32 [15]], step = 1, opt_state = [Array bfloat16 [5]]\<rparr>)"
  using train_steps
    [where optimizer = "\<lparr>opt_init = (\<lambda>p. p), opt_update = (\<lambda>g os p. (g, g))\<rparr>"
       and vg = "\<lambda>p c t. (Array bfloat16 [1], [Array bfloat16 [real_of_int (hd c)]])"
       and state = "\<lparr>params = [Array float32 [10]], step = 0, opt_state = []\<rparr>"
       and batches = "[([[1], [2]], [[2], [3]]), ([[3], [4]], [[4], [5]])]" and r = 0]
  by (simp add: train_eval_defs Let_def)

text \<open>
  An optimizer that keeps the gradient it receives shows which precision that gradient
  has: \<^verbatim>\<open>bfloat16\<close> in the code, \<^verbatim>\<open>float32\<close> had the gradient been cast first. And from
  the step \<open>2^31 - 1\<close> the counter goes to \<open>- 2^31\<close>, not to \<open>2^31\<close>.
\<close>

theorem train_casts_updates_counterexample:
  "train \<lparr>opt_init = (\<lambda>p. p), opt_update = (\<lambda>g os p. (g, g))\<rparr>
     (\<lambda>p c t. (Array bfloat16 [1], [Array bfloat16 [real_of_int (hd c)]]))
     \<lparr>params = [Array float32 [10]], step = 0, opt_state = []\<rparr>
     [([[1], [2]], [[2], [3]]), ([[3], [4]], [[4], [5]])]
   = [([Array float32 [1], Array float32 [1]],
       \<lparr>params = [Array float32 [15]], step = 1, opt_state = [Array bfloat16 [5]]\<rparr>),
      ([Array float32 [1], Array float32 [1]],
       \<lparr>params = [Array float32 [15]], step = 1, opt_state = [Array bfloat16 [5]]\<rparr>)]
   \<and> train_spec \<lparr>opt_init = (\<lambda>p. p), opt_update = (\<lambda>g os p. (g, g))\<rparr>
     (\<lambda>p c t. (Array bfloat16 [1], [Array bfloat16 [real_of_int (hd c)]]))
     \<lparr>params = [Array float32 [10]], step = 0, opt_state = []\<rparr>
     [([[1], [2]], [[2], [3]]), ([[3], [4]], [[4], [5]])]
   = [([Array float32 [1], Array float32 [1]],
       \<lparr>params = [Array float32 [15]], step = 1, opt_state = [Array float32 [5]]\<rparr>),
      ([Array float32 [1], Array float32 [1]],
       \<lparr>params = [Array float32 [15]], step = 1, opt_state = [Array float32 [5]]\<rparr>)]
   \<and> sint (step (snd (train \<lparr>opt_init = (\<lambda>p. p), opt_update = (\<lambda>g os p. (g, g))\<rparr>
     (\<lambda>p c t. (Array bfloat16 [1], [Array bfloat16 [real_of_int (hd c)]]))
     \<lparr>params = [Array float32 [10]], step = 2147483647, opt_state = []\<rparr>
     [([[1], [2]], [[2], [3]]), ([[3], [4]], [[4], [5]])] ! 0))) = - 2147483648"
  by (simp add: train_def train_spec_def pmean_batch_def microbatch_def train_eval_defs Let_def)

text \<open>
  \<^verbatim>\<open>CausalTransformer.train\<close>, unlike \<^verbatim>\<open>eval\<close>, assigns the new state to the object:
  the same example, with the sample given micro-batches first.
\<close>

lemma train_assigns_state_example:
  "CausalTransformer_train \<lparr>opt_init = (\<lambda>p. p), opt_update = (\<lambda>g os p. (g, g))\<rparr>
     (\<lambda>p c t. (Array bfloat16 [1], [Array bfloat16 [real_of_int (hd c)]]))
     \<lparr>ct_config = cfg,
      ct_state = \<lparr>params = [Array float32 [10]], step = 0, opt_state = []\<rparr>\<rparr>
     ([[[1], [3]], [[2], [4]]], [[[2], [4]], [[3], [5]]])
   = (1, \<lparr>ct_config = cfg,
          ct_state = \<lparr>params = [Array float32 [15]], step = 1,
                       opt_state = [Array bfloat16 [5]]\<rparr>\<rparr>)"
  by (simp add: CausalTransformer_train_def train_def pmean_batch_def microbatch_def
      train_eval_defs np_mean_def Let_def)

end
